theory Spec2Isabelle
  imports Complex_Main "HOL-Library.AList"
begin

section \<open>Python strings\<close>

text \<open>
  A transcript is a Python \<open>str\<close>. It is modelled as a \<open>string\<close> of 8-bit characters, read
  as the code points 0..255 (ASCII and Latin-1). The character tests below follow
  Python's Unicode tables on that range.
\<close>

definition code :: "char \<Rightarrow> nat" where
  "code c = of_char c"

text \<open>\<open>str.isspace\<close> of one character; also the class \<open>\s\<close> of \<open>re\<close>.\<close>

definition is_space :: "char \<Rightarrow> bool" where
  "is_space c = (let n = code c in
     (9 \<le> n \<and> n \<le> 13) \<or> (28 \<le> n \<and> n \<le> 32) \<or> n = 133 \<or> n = 160)"

text \<open>The class \<open>\d\<close> of \<open>re\<close>: the decimal digits.\<close>

definition is_decimal :: "char \<Rightarrow> bool" where
  "is_decimal c = (let n = code c in 48 \<le> n \<and> n \<le> 57)"

text \<open>\<open>str.isdigit\<close> of one character: the decimal digits and the superscripts 1, 2, 3.\<close>

definition is_digit_char :: "char \<Rightarrow> bool" where
  "is_digit_char c = (let n = code c in
     (48 \<le> n \<and> n \<le> 57) \<or> n = 178 \<or> n = 179 \<or> n = 185)"

text \<open>The class \<open>\w\<close> of \<open>re\<close>: alphanumeric characters and the underscore.\<close>

definition is_word :: "char \<Rightarrow> bool" where
  "is_word c = (let n = code c in
     (48 \<le> n \<and> n \<le> 57) \<or> (65 \<le> n \<and> n \<le> 90) \<or> n = 95 \<or> (97 \<le> n \<and> n \<le> 122)
     \<or> n = 170 \<or> n = 178 \<or> n = 179 \<or> n = 181 \<or> n = 185 \<or> n = 186
     \<or> (188 \<le> n \<and> n \<le> 190) \<or> (192 \<le> n \<and> n \<le> 214) \<or> (216 \<le> n \<and> n \<le> 246)
     \<or> 248 \<le> n)"

text \<open>\<open>str.lower\<close> of one character.\<close>

definition lower_char :: "char \<Rightarrow> char" where
  "lower_char c = (let n = code c in
     if (65 \<le> n \<and> n \<le> 90) \<or> (192 \<le> n \<and> n \<le> 222 \<and> n \<noteq> 215)
     then char_of (n + 32) else c)"

definition py_lower :: "string \<Rightarrow> string" where
  "py_lower s = map lower_char s"

text \<open>\<open>str.strip()\<close>: whitespace removed at both ends.\<close>

definition py_strip :: "string \<Rightarrow> string" where
  "py_strip s = rev (dropWhile is_space (rev (dropWhile is_space s)))"

text \<open>\<open>str.isdigit()\<close>: non-empty and every character a digit.\<close>

definition py_isdigit :: "string \<Rightarrow> bool" where
  "py_isdigit s = (s \<noteq> [] \<and> list_all is_digit_char s)"

text \<open>\<open>str.endswith(c)\<close> for a one-character suffix, and the slice \<open>s[:-1]\<close>.\<close>

definition endswith_char :: "string \<Rightarrow> char \<Rightarrow> bool" where
  "endswith_char s c = (s \<noteq> [] \<and> last s = c)"

definition drop_last :: "string \<Rightarrow> string" where
  "drop_last s = butlast s"

section \<open>Dictionaries\<close>

text \<open>
  A Python \<open>dict\<close> keeps its keys in insertion order, and assigning to a key that is
  present replaces the value in place. It is an association list with distinct keys;
  \<open>d[k] = v\<close> is \<open>AList.update k v d\<close>.
\<close>

type_synonym ('k, 'v) dict = "('k \<times> 'v) list"

definition dict_set :: "'k \<Rightarrow> 'v \<Rightarrow> ('k, 'v) dict \<Rightarrow> ('k, 'v) dict" where
  "dict_set k v d = AList.update k v d"

definition dict_len :: "('k, 'v) dict \<Rightarrow> nat" where
  "dict_len d = length d"

definition dict_has :: "'k \<Rightarrow> ('k, 'v) dict \<Rightarrow> bool" where
  "dict_has k d = (map_of d k \<noteq> None)"

definition dict_get :: "('k, 'v) dict \<Rightarrow> 'k \<Rightarrow> 'v option" where
  "dict_get d k = map_of d k"

definition dict_keys :: "('k, 'v) dict \<Rightarrow> 'k list" where
  "dict_keys d = map fst d"

definition dict_values :: "('k, 'v) dict \<Rightarrow> 'v list" where
  "dict_values d = map snd d"

definition is_dict :: "('k, 'v) dict \<Rightarrow> bool" where
  "is_dict d = distinct (map fst d)"

section \<open>database.py: the question-combination rule\<close>

type_synonym marks_set = "(int, int) dict"

definition validate_question_combination :: "marks_set \<Rightarrow> bool" where
  "validate_question_combination marks_dict =
     (if dict_len marks_dict \<noteq> 4 then False
      else
        let has_q1_or_q2 = (dict_has 1 marks_dict \<or> dict_has 2 marks_dict);
            has_q3_or_q4 = (dict_has 3 marks_dict \<or> dict_has 4 marks_dict);
            has_q5_or_q6 = (dict_has 5 marks_dict \<or> dict_has 6 marks_dict);
            has_q7_or_q8 = (dict_has 7 marks_dict \<or> dict_has 8 marks_dict);
            has_both_q1_q2 = (dict_has 1 marks_dict \<and> dict_has 2 marks_dict);
            has_both_q3_q4 = (dict_has 3 marks_dict \<and> dict_has 4 marks_dict);
            has_both_q5_q6 = (dict_has 5 marks_dict \<and> dict_has 6 marks_dict);
            has_both_q7_q8 = (dict_has 7 marks_dict \<and> dict_has 8 marks_dict)
        in has_q1_or_q2 \<and> has_q3_or_q4 \<and> has_q5_or_q6 \<and> has_q7_or_q8 \<and>
           \<not> has_both_q1_q2 \<and> \<not> has_both_q3_q4 \<and>
           \<not> has_both_q5_q6 \<and> \<not> has_both_q7_q8)"

text \<open>The spec's wording: exactly one member of a pair of question indices is a key.\<close>

definition one_of_pair :: "int \<Rightarrow> int \<Rightarrow> marks_set \<Rightarrow> bool" where
  "one_of_pair a b d = (dict_has a d \<noteq> dict_has b d)"

definition one_from_each_pair :: "marks_set \<Rightarrow> bool" where
  "one_from_each_pair d =
     (one_of_pair 1 2 d \<and> one_of_pair 3 4 d \<and> one_of_pair 5 6 d \<and> one_of_pair 7 8 d)"

definition keys_in_range :: "marks_set \<Rightarrow> bool" where
  "keys_in_range d = list_all (\<lambda>k. 1 \<le> k \<and> k \<le> 8) (dict_keys d)"

section \<open>voice\_processor.py: prefix expansion\<close>

definition expand_usn :: "string \<Rightarrow> string \<Rightarrow> string" where
  "expand_usn usn_prefix digits =
     (if usn_prefix = [] then digits
      else if endswith_char usn_prefix CHR ''0'' \<and> length digits = 3
           then drop_last usn_prefix @ digits
           else usn_prefix @ digits)"

section \<open>More of Python's string methods\<close>

text \<open>\<open>str.split()\<close> with no argument: the maximal runs of non-whitespace characters.\<close>

fun split_aux :: "string \<Rightarrow> string \<Rightarrow> string list" where
  "split_aux cur [] = (if cur = [] then [] else [cur])"
| "split_aux cur (c # cs) =
     (if is_space c then (if cur = [] then split_aux [] cs else cur # split_aux [] cs)
      else split_aux (cur @ [c]) cs)"

definition py_split :: "string \<Rightarrow> string list" where
  "py_split s = split_aux [] s"

text \<open>\<open>sep.join(parts)\<close>.\<close>

fun py_join :: "string \<Rightarrow> string list \<Rightarrow> string" where
  "py_join sep [] = []"
| "py_join sep [x] = x"
| "py_join sep (x # y # ys) = x @ sep @ py_join sep (y # ys)"

text \<open>\<open>p in t\<close> for strings: \<open>p\<close> occurs in \<open>t\<close> as a substring.\<close>

fun contains :: "string \<Rightarrow> string \<Rightarrow> bool" where
  "contains p [] = (p = [])"
| "contains p (x # xs) = (take (length p) (x # xs) = p \<or> contains p xs)"

text \<open>
  \<open>int(s)\<close> on a run of decimal digits (every argument in this program is a \<open>\d\<close>
  capture of a regular expression), and \<open>str(n)\<close> of a natural number.
\<close>

definition py_int :: "string \<Rightarrow> int" where
  "py_int s = foldl (\<lambda>n c. 10 * n + (int (code c) - 48)) 0 s"

function py_str :: "nat \<Rightarrow> string" where
  "py_str n = (if n < 10 then [char_of (48 + n)]
               else py_str (n div 10) @ [char_of (48 + n mod 10)])"
  by pat_completeness auto
termination
  by (relation "measure id") auto

section \<open>The regular expressions of \<open>re\<close>\<close>

text \<open>
  The patterns of the program use literals, repeated character classes (greedy or lazy),
  groups, alternatives, an optional part, the anchor \<open>^\<close> and a negative lookahead on one
  character. All of them are compiled with \<open>re.IGNORECASE\<close>: a literal matches in either
  case.
\<close>

datatype regex =
    Lit string
  | Cls "char \<Rightarrow> bool" nat "nat option" bool
  | Bol
  | NotAhead "char \<Rightarrow> bool"
  | Grp nat regex
  | Alt regex regex
  | Seq regex regex
  | Opt regex

type_synonym caps = "(nat \<times> string) list"

definition ci_prefix :: "string \<Rightarrow> string \<Rightarrow> bool" where
  "ci_prefix s t = (length s \<le> length t \<and> map lower_char (take (length s) t) = map lower_char s)"

text \<open>
  \<open>rmatch r i t c\<close> is the backtracking matcher started at position \<open>i\<close>, where \<open>t\<close> is
  the text from \<open>i\<close> on and \<open>c\<close> holds the groups captured so far. It returns every way
  of matching, as (end position, rest of the text, groups), in the order in which the
  backtracking engine tries them: the head of the list is the match \<open>re\<close> reports.
  \<open>Cls P lo hi greedy\<close> is a class repeated \<open>lo\<close> to \<open>hi\<close> times.
\<close>

fun rmatch :: "regex \<Rightarrow> nat \<Rightarrow> string \<Rightarrow> caps \<Rightarrow> (nat \<times> string \<times> caps) list" where
  "rmatch (Lit s) i t c = (if ci_prefix s t then [(i + length s, drop (length s) t, c)] else [])"
| "rmatch (Cls P lo hi greedy) i t c =
     (let run = length (takeWhile P t);
          k = (case hi of None \<Rightarrow> run | Some h \<Rightarrow> min h run);
          ns = [lo..<Suc k]
      in map (\<lambda>n. (i + n, drop n t, c)) (if greedy then rev ns else ns))"
| "rmatch Bol i t c = (if i = 0 then [(i, t, c)] else [])"
| "rmatch (NotAhead P) i t c =
     (case t of [] \<Rightarrow> [(i, t, c)] | x # _ \<Rightarrow> if P x then [] else [(i, t, c)])"
| "rmatch (Grp n r) i t c =
     map (\<lambda>(j, t', c'). (j, t', (n, take (j - i) t) # c')) (rmatch r i t c)"
| "rmatch (Alt a b) i t c = rmatch a i t c @ rmatch b i t c"
| "rmatch (Seq a b) i t c = concat (map (\<lambda>(j, t', c'). rmatch b j t' c') (rmatch a i t c))"
| "rmatch (Opt a) i t c = rmatch a i t c @ [(i, t, c)]"

fun seqs :: "regex list \<Rightarrow> regex" where
  "seqs [] = Lit []"
| "seqs [r] = r"
| "seqs (r # q # rs) = Seq r (seqs (q # rs))"

abbreviation star :: "(char \<Rightarrow> bool) \<Rightarrow> regex" where
  "star P \<equiv> Cls P 0 None True"

abbreviation plus :: "(char \<Rightarrow> bool) \<Rightarrow> regex" where
  "plus P \<equiv> Cls P 1 None True"

abbreviation lazy_star :: "(char \<Rightarrow> bool) \<Rightarrow> regex" where
  "lazy_star P \<equiv> Cls P 0 None False"

abbreviation lazy_plus :: "(char \<Rightarrow> bool) \<Rightarrow> regex" where
  "lazy_plus P \<equiv> Cls P 1 None False"

text \<open>
  A match object: start, end and groups. \<open>group m n\<close> is \<open>m.group(n)\<close> for \<open>n > 0\<close> (every
  group of every pattern below takes part in each of its matches), and \<open>group0 t m\<close> is
  \<open>m.group(0)\<close>, the matched part of the text \<open>t\<close>.
\<close>

type_synonym rematch = "nat \<times> nat \<times> caps"

definition group :: "rematch \<Rightarrow> nat \<Rightarrow> string" where
  "group m n = (case map_of (snd (snd m)) n of None \<Rightarrow> [] | Some s \<Rightarrow> s)"

definition group0 :: "string \<Rightarrow> rematch \<Rightarrow> string" where
  "group0 t m = take (fst (snd m) - fst m) (drop (fst m) t)"

text \<open>\<open>re.search\<close>: the first start position, from the left, at which the pattern matches.\<close>

fun search_from :: "regex \<Rightarrow> nat \<Rightarrow> string \<Rightarrow> rematch option" where
  "search_from r i [] =
     (case rmatch r i [] [] of [] \<Rightarrow> None | (j, _, c) # _ \<Rightarrow> Some (i, j, c))"
| "search_from r i (x # xs) =
     (case rmatch r i (x # xs) [] of
        [] \<Rightarrow> search_from r (Suc i) xs
      | (j, _, c) # _ \<Rightarrow> Some (i, j, c))"

definition re_search :: "regex \<Rightarrow> string \<Rightarrow> rematch option" where
  "re_search r t = search_from r 0 t"

text \<open>
  \<open>re.finditer\<close>: the matches from left to right, none overlapping another. \<open>k\<close> counts
  the characters still covered by the last match. (After an empty match the scan moves on
  by one character; no pattern of this program matches the empty string.)
\<close>

fun finditer_from :: "regex \<Rightarrow> nat \<Rightarrow> nat \<Rightarrow> string \<Rightarrow> rematch list" where
  "finditer_from r i k [] =
     (if 0 < k then []
      else case rmatch r i [] [] of [] \<Rightarrow> [] | (j, _, c) # _ \<Rightarrow> [(i, j, c)])"
| "finditer_from r i k (x # xs) =
     (if 0 < k then finditer_from r (Suc i) (k - 1) xs
      else case rmatch r i (x # xs) [] of
             [] \<Rightarrow> finditer_from r (Suc i) 0 xs
           | (j, _, c) # _ \<Rightarrow> (i, j, c) # finditer_from r (Suc i) (j - i - 1) xs)"

definition re_finditer :: "regex \<Rightarrow> string \<Rightarrow> rematch list" where
  "re_finditer r t = finditer_from r 0 0 t"

text \<open>\<open>re.sub\<close> with a function as replacement: every match is replaced by what \<open>repl\<close> returns.\<close>

fun sub_build :: "(rematch \<Rightarrow> string) \<Rightarrow> string \<Rightarrow> nat \<Rightarrow> rematch list \<Rightarrow> string" where
  "sub_build repl t pos [] = drop pos t"
| "sub_build repl t pos (m # ms) =
     take (fst m - pos) (drop pos t) @ repl m @ sub_build repl t (fst (snd m)) ms"

definition re_sub :: "regex \<Rightarrow> (string \<Rightarrow> rematch \<Rightarrow> string) \<Rightarrow> string \<Rightarrow> string" where
  "re_sub r repl t = sub_build (repl t) t 0 (re_finditer r t)"

section \<open>voice\_processor.py: the patterns\<close>

definition word_or_space :: "char \<Rightarrow> bool" where
  "word_or_space c = (is_word c \<or> is_space c)"

text \<open>
  The class of separators between a question number and its marks, as the source file
  spells it: whitespace, the hyphen and the characters U+00E2, U+20AC, U+201C, U+201D.
  On the 8-bit range that is whitespace, the hyphen and U+00E2, with U+00C2 as its other
  case.
\<close>

definition dash_sep :: "char \<Rightarrow> bool" where
  "dash_sep c = (is_space c \<or> c = CHR ''-'' \<or> code c = 226 \<or> code c = 194)"

definition one_or_two :: "char \<Rightarrow> bool" where
  "one_or_two c = (c = CHR ''1'' \<or> c = CHR ''2'')"

text \<open>\<open>usn\s+(\w+)\<close>\<close>

definition usn_pattern :: regex where
  "usn_pattern = seqs [Lit ''usn'', plus is_space, Grp 1 (plus is_word)]"

text \<open>\<open>^(\d{2,3})\s+(is|has|scored)\<close>\<close>

definition digit_pattern :: regex where
  "digit_pattern = seqs [Bol, Grp 1 (Cls is_decimal 2 (Some 3) True), plus is_space,
     Grp 2 (Alt (Lit ''is'') (Alt (Lit ''has'') (Lit ''scored'')))]"

text \<open>\<open>^([\w\s]+?)\s+is\s+(present|absent)\<close>\<close>

definition status_pattern :: regex where
  "status_pattern = seqs [Bol, Grp 1 (lazy_plus word_or_space), plus is_space, Lit ''is'',
     plus is_space, Grp 2 (Alt (Lit ''present'') (Lit ''absent''))]"

text \<open>
  \<open>^([\w\s]+?)\s+(?:has\s+)?scored\<close>, \<open>^([\w\s]+?)\s+has\s+\<close> and
  \<open>^([\w\s]+?)\s+ia[12]\<close>
\<close>

definition marks_patterns :: "regex list" where
  "marks_patterns =
     [seqs [Bol, Grp 1 (lazy_plus word_or_space), plus is_space,
            Opt (Seq (Lit ''has'') (plus is_space)), Lit ''scored''],
      seqs [Bol, Grp 1 (lazy_plus word_or_space), plus is_space, Lit ''has'', plus is_space],
      seqs [Bol, Grp 1 (lazy_plus word_or_space), plus is_space, Lit ''ia'',
            Cls one_or_two 1 (Some 1) True]]"

text \<open>
  The seven patterns of \<open>extract_marks\<close>, in the order of the source. The flag says
  whether group 1 is the marks and group 2 the question: the source decides it from the
  pattern's text (it contains both \<open>mark\<close> and \<open>question\<close>, and \<open>question\<close> comes after
  the first \<open>(\d+)\<close>), which holds for the last two patterns only.
\<close>

definition patterns :: "(regex \<times> bool) list" where
  "patterns =
     [(seqs [Lit ''question'', star is_space, Grp 1 (plus is_decimal), star is_space, Lit '','',
             star is_space, Grp 2 (plus is_decimal), star is_space, Lit ''mark'',
             Opt (Lit ''s'')], False),
      (seqs [Lit ''question'', star is_space, Grp 1 (plus is_decimal), star dash_sep,
             Grp 2 (plus is_decimal), star is_space, Lit ''mark''], False),
      (seqs [Lit ''question'', star is_space, Grp 1 (plus is_decimal), plus dash_sep,
             Grp 2 (plus is_decimal), NotAhead is_decimal], False),
      (seqs [Lit ''q'', Grp 1 (plus is_decimal), plus dash_sep, Grp 2 (plus is_decimal),
             star is_space, Lit ''mark''], False),
      (seqs [Lit ''q'', Grp 1 (plus is_decimal), plus dash_sep, Grp 2 (plus is_decimal),
             NotAhead is_decimal], False),
      (seqs [Grp 1 (plus is_decimal), star is_space, Lit ''mark'', Opt (Lit ''s''),
             plus is_space, Lit ''in'', plus is_space, Lit ''question'', plus is_space,
             Grp 2 (plus is_decimal)], True),
      (seqs [Lit ''scored'', lazy_star word_or_space, Grp 1 (plus is_decimal), star is_space,
             Lit ''mark'', Opt (Lit ''s''), plus is_space, Lit ''in'', plus is_space,
             Lit ''question'', plus is_space, Grp 2 (plus is_decimal)], True)]"

text \<open>\<open>(\d+)[\s\w]*?question\s*(\d+)\<close>\<close>

definition flexible_pattern :: regex where
  "flexible_pattern = seqs [Grp 1 (plus is_decimal), lazy_star word_or_space, Lit ''question'',
     star is_space, Grp 2 (plus is_decimal)]"

text \<open>\<open>question\s*(\d{2})\s*mark\<close> and \<open>question\s*(\d{2})(?!\d)\<close>\<close>

definition fix_pattern_mark :: regex where
  "fix_pattern_mark = seqs [Lit ''question'', star is_space,
     Grp 1 (Cls is_decimal 2 (Some 2) True), star is_space, Lit ''mark'']"

definition fix_pattern_bare :: regex where
  "fix_pattern_bare = seqs [Lit ''question'', star is_space,
     Grp 1 (Cls is_decimal 2 (Some 2) True), NotAhead is_decimal]"

section \<open>voice\_processor.py: the identifier\<close>

definition noise_words :: "string list" where
  "noise_words = [''i'', ''scored'', ''as'', ''a'', ''the'', ''has'', ''have'', ''had'']"

definition keywords_list :: "string list" where
  "keywords_list = [''is'', ''has'', ''have'', ''scored'', ''marks'', ''mark'', ''ia1'', ''ia2'',
     ''question'', ''i'']"

text \<open>
  The name taken from group 1 of a name pattern: stripped, noise words removed, and the
  stripped span itself when nothing else is left.
\<close>

definition clean_name :: "rematch \<Rightarrow> string" where
  "clean_name m =
     (let name = py_strip (group m 1);
          name_parts = filter (\<lambda>w. py_lower w \<notin> set noise_words) (py_split name)
      in if name_parts \<noteq> [] then py_join '' '' name_parts else name)"

text \<open>The loop over \<open>marks_patterns\<close>: the first pattern that matches decides.\<close>

fun first_name_match :: "regex list \<Rightarrow> string \<Rightarrow> string option" where
  "first_name_match [] text = None"
| "first_name_match (pattern # rest) text =
     (case re_search pattern text of
        Some m \<Rightarrow> Some (clean_name m)
      | None \<Rightarrow> first_name_match rest text)"

text \<open>The loop over the words of the text, left at the first keyword.\<close>

fun identifier_words :: "string list \<Rightarrow> string list" where
  "identifier_words [] = []"
| "identifier_words (word # words) =
     (if py_lower word \<in> set keywords_list then []
      else if py_lower word \<notin> set noise_words \<and> 1 < length word \<and> \<not> py_isdigit word
           then word # identifier_words words
           else identifier_words words)"

definition extract_identifier :: "string \<Rightarrow> string \<Rightarrow> string option" where
  "extract_identifier usn_prefix text =
     (case re_search usn_pattern text of
        Some m \<Rightarrow>
          (let usn_part = group m 1
           in if py_isdigit usn_part \<and> length usn_part \<le> 3 \<and> usn_prefix \<noteq> []
              then Some (expand_usn usn_prefix usn_part)
              else Some usn_part)
      | None \<Rightarrow>
          (case (if usn_prefix \<noteq> [] then re_search digit_pattern text else None) of
             Some m \<Rightarrow> Some (expand_usn usn_prefix (group m 1))
           | None \<Rightarrow>
               (case re_search status_pattern text of
                  Some m \<Rightarrow> Some (clean_name m)
                | None \<Rightarrow>
                    (case first_name_match marks_patterns text of
                       Some name \<Rightarrow> Some name
                     | None \<Rightarrow>
                         (let ws = identifier_words (py_split text)
                          in if ws \<noteq> [] then Some (py_join '' '' ws) else None)))))"

definition extract_attendance_status :: "string \<Rightarrow> string option" where
  "extract_attendance_status text =
     (if contains ''present'' text then Some ''Present''
      else if contains ''absent'' text then Some ''Absent''
      else None)"

section \<open>voice\_processor.py: the marks\<close>

definition replace_question_number :: "string \<Rightarrow> rematch \<Rightarrow> string" where
  "replace_question_number text m =
     (let full_text = group0 text m;
          two_digit = group m 1;
          digit1 = py_int (take 1 two_digit);
          digit2 = py_int (take 1 (drop 1 two_digit))
      in if 1 \<le> digit1 \<and> digit1 \<le> 8 \<and> 0 \<le> digit2 \<and> digit2 \<le> 10
         then ''question '' @ py_str (nat digit1) @ '' '' @ py_str (nat digit2) @ '' marks''
         else full_text)"

definition fix_transcription_errors :: "string \<Rightarrow> string" where
  "fix_transcription_errors text =
     (let text1 = re_sub fix_pattern_mark replace_question_number text
      in re_sub fix_pattern_bare replace_question_number text1)"

text \<open>One match of a pattern: the pair is stored when both numbers are in range.\<close>

definition store_match :: "bool \<Rightarrow> marks_set \<Rightarrow> rematch \<Rightarrow> marks_set" where
  "store_match marks_first marks_dict m =
     (let g1 = group m 1; g2 = group m 2;
          marks = (if marks_first then py_int g1 else py_int g2);
          question_num = (if marks_first then py_int g2 else py_int g1)
      in if 1 \<le> question_num \<and> question_num \<le> 8 \<and> 0 \<le> marks \<and> marks \<le> 10
         then dict_set question_num marks marks_dict
         else marks_dict)"

definition scan_pattern :: "string \<Rightarrow> marks_set \<Rightarrow> regex \<times> bool \<Rightarrow> marks_set" where
  "scan_pattern text marks_dict p =
     foldl (store_match (snd p)) marks_dict (re_finditer (fst p) text)"

definition extract_marks :: "string \<Rightarrow> marks_set" where
  "extract_marks text0 =
     (let text = fix_transcription_errors text0;
          marks_dict = foldl (scan_pattern text) [] patterns
      in if marks_dict = []
         then foldl (store_match True) marks_dict (re_finditer flexible_pattern text)
         else marks_dict)"

section \<open>rapidfuzz\<close>

text \<open>
  \<open>fuzz.ratio\<close> is the normalised Indel similarity on the scale 0 to 100: with \<open>lcs\<close> the
  length of a longest common subsequence, \<open>100 * 2 * lcs / (len(s1) + len(s2))\<close>, and 100
  for two empty strings. The library computes it in floating point; the model keeps the
  exact fraction.
\<close>

fun lcs :: "string \<Rightarrow> string \<Rightarrow> nat" where
  "lcs [] ys = 0"
| "lcs (x # xs) [] = 0"
| "lcs (x # xs) (y # ys) =
     (if x = y then Suc (lcs xs ys) else max (lcs (x # xs) ys) (lcs xs (y # ys)))"

definition fuzz_ratio :: "string \<Rightarrow> string \<Rightarrow> rat" where
  "fuzz_ratio s1 s2 =
     (if length s1 + length s2 = 0 then 100
      else 100 * of_nat (2 * lcs s1 s2) / of_nat (length s1 + length s2))"

text \<open>
  \<open>process.extractOne(query, choices, scorer=fuzz.ratio, score_cutoff=c)\<close>: the choices
  are scored in order; a choice replaces the result when its score reaches the cutoff and
  is strictly better than the best so far; a score of 100 ends the scan.
\<close>

fun extract_one_loop ::
  "string \<Rightarrow> rat \<Rightarrow> string list \<Rightarrow> (string \<times> rat) option \<Rightarrow> (string \<times> rat) option" where
  "extract_one_loop query score_cutoff [] result = result"
| "extract_one_loop query score_cutoff (choice # rest) result =
     (let score = fuzz_ratio query choice;
          result' = (if score_cutoff \<le> score \<and>
                        (case result of None \<Rightarrow> True | Some (_, best) \<Rightarrow> best < score)
                     then Some (choice, score) else result)
      in if score = 100 then result' else extract_one_loop query score_cutoff rest result')"

definition extractOne :: "string \<Rightarrow> string list \<Rightarrow> rat \<Rightarrow> (string \<times> rat) option" where
  "extractOne query choices score_cutoff = extract_one_loop query score_cutoff choices None"

section \<open>database.py: the store\<close>

text \<open>
  The three tables, and the SQL statements executed so far. A student is the row
  (id, usn, name). An attendance row is (student, date, status); a marks row is
  (student, assessment, the eight question columns, total).
\<close>

type_synonym student = "int \<times> string \<times> string"

datatype statement =
    SelectStudents
  | InsertAttendance int "string option" string
  | InsertMarks int "string option" marks_set int

record database =
  students :: "student list"
  attendance :: "(int \<times> string \<times> string) list"
  ia_marks :: "(int \<times> string \<times> int option list \<times> int) list"
  executed :: "statement list"

text \<open>
  What the program reports. Each constructor stands for one message text of the source:
  \<^item> \<open>FailedToTranscribe\<close>: "Failed to transcribe audio"
  \<^item> \<open>InvalidCommandType\<close>: "Invalid command type"
  \<^item> \<open>CouldNotIdentifyStudent\<close>: "Could not identify student from command"
  \<^item> \<open>CouldNotDetermineStatus\<close>: "Could not determine attendance status (Present/Absent)"
  \<^item> \<open>StudentNotFound i\<close>: "Student "i" not found in database"
  \<^item> \<open>CouldNotExtractMarks\<close>: "Could not extract marks from command"
  \<^item> \<open>TotalExceedsMaximum n\<close>: "Total marks (n) exceeds maximum (40)"
  \<^item> \<open>AttendanceMarked name usn status date\<close>: "name (usn) marked status for date"
  \<^item> \<open>MarksConfirmed name usn ia items total\<close>: "name (usn) - ia: Q1=8, ..., Total: total/40"
  \<^item> \<open>AttendanceRecorded\<close>: "Attendance recorded successfully"
  \<^item> \<open>ErrorRecordingAttendance\<close>: "Error recording attendance: ..."
  \<^item> \<open>InvalidQuestionCombination\<close>: "Invalid question combination. Must select one from
    each pair: (Q1/Q2), (Q3/Q4), (Q5/Q6), (Q7/Q8)"
  \<^item> \<open>MarksStored ia\<close>: "ia marks recorded successfully"
  \<^item> \<open>ErrorRecordingMarks\<close>: "Error recording marks: ..."
\<close>

datatype message =
    FailedToTranscribe
  | InvalidCommandType
  | CouldNotIdentifyStudent
  | CouldNotDetermineStatus
  | StudentNotFound string
  | CouldNotExtractMarks
  | TotalExceedsMaximum int
  | AttendanceMarked string string string "string option"
  | MarksConfirmed string string "string option" "(int \<times> int) list" int
  | AttendanceRecorded
  | ErrorRecordingAttendance
  | InvalidQuestionCombination
  | MarksStored "string option"
  | ErrorRecordingMarks

definition log_statement :: "statement \<Rightarrow> database \<Rightarrow> database" where
  "log_statement st db = db\<lparr>executed := executed db @ [st]\<rparr>"

text \<open>The search corpus: both the lowercased USN and the lowercased name lead to the row.\<close>

definition add_choices :: "(string, student) dict \<Rightarrow> student \<Rightarrow> (string, student) dict" where
  "add_choices choices st =
     (case st of (student_id, usn, name) \<Rightarrow>
        dict_set (py_lower name) st (dict_set (py_lower usn) st choices))"

definition fuzzy_find_student :: "database \<Rightarrow> string \<Rightarrow> student option \<times> database" where
  "fuzzy_find_student db identifier =
     (let db' = log_statement SelectStudents db;
          studs = students db
      in if studs = [] then (None, db')
         else
           let choices = foldl add_choices [] studs
           in case extractOne (py_lower identifier) (dict_keys choices) 70 of
                Some match \<Rightarrow> (dict_get choices (fst match), db')
              | None \<Rightarrow> (None, db'))"

text \<open>
  \<open>INSERT OR REPLACE\<close> into \<open>attendance\<close>: the row with the same (student, date) is
  replaced. The statement raises, and the error message is returned, when the date is
  \<open>None\<close> (the column is \<open>NOT NULL\<close>) or the status fails the table's \<open>CHECK\<close>.
\<close>

definition record_attendance ::
  "database \<Rightarrow> int \<Rightarrow> string option \<Rightarrow> string \<Rightarrow> (bool \<times> message) \<times> database" where
  "record_attendance db student_id date status =
     (let db' = log_statement (InsertAttendance student_id date status) db
      in case date of
           None \<Rightarrow> ((False, ErrorRecordingAttendance), db')
         | Some d \<Rightarrow>
             if status = ''Present'' \<or> status = ''Absent''
             then ((True, AttendanceRecorded),
                   db'\<lparr>attendance :=
                         filter (\<lambda>(s, d', _). \<not> (s = student_id \<and> d' = d)) (attendance db')
                         @ [(student_id, d, status)]\<rparr>)
             else ((False, ErrorRecordingAttendance), db'))"

text \<open>
  \<open>INSERT OR REPLACE\<close> into \<open>ia_marks\<close>, after the validation. The statement raises when
  the assessment is not \<open>IA1\<close> or \<open>IA2\<close> or a question column fails its \<open>CHECK\<close> (0 to 10).
\<close>

definition marks_columns :: "marks_set \<Rightarrow> int option list" where
  "marks_columns marks_dict = map (dict_get marks_dict) [1, 2, 3, 4, 5, 6, 7, 8]"

definition column_ok :: "int option \<Rightarrow> bool" where
  "column_ok v = (case v of None \<Rightarrow> True | Some m \<Rightarrow> 0 \<le> m \<and> m \<le> 10)"

definition record_ia_marks ::
  "database \<Rightarrow> int \<Rightarrow> string option \<Rightarrow> marks_set \<Rightarrow> int \<Rightarrow> (bool \<times> message) \<times> database" where
  "record_ia_marks db student_id ia_type marks_dict total_marks =
     (if \<not> validate_question_combination marks_dict
      then ((False, InvalidQuestionCombination), db)
      else
        let db' = log_statement (InsertMarks student_id ia_type marks_dict total_marks) db
        in case ia_type of
             None \<Rightarrow> ((False, ErrorRecordingMarks), db')
           | Some ia \<Rightarrow>
               if (ia = ''IA1'' \<or> ia = ''IA2'') \<and> list_all column_ok (marks_columns marks_dict)
               then ((True, MarksStored ia_type),
                     db'\<lparr>ia_marks :=
                           filter (\<lambda>(s, a, _, _). \<not> (s = student_id \<and> a = ia)) (ia_marks db')
                           @ [(student_id, ia, marks_columns marks_dict, total_marks)]\<rparr>)
               else ((False, ErrorRecordingMarks), db'))"

section \<open>voice\_processor.py: the commands\<close>

record outcome =
  success :: bool
  message :: message

definition failure :: "message \<Rightarrow> outcome" where
  "failure msg = \<lparr>success = False, message = msg\<rparr>"

text \<open>\<open>not identifier\<close>: the identifier is \<open>None\<close> or the empty string.\<close>

definition falsy :: "string option \<Rightarrow> bool" where
  "falsy x = (case x of None \<Rightarrow> True | Some s \<Rightarrow> s = [])"

definition process_attendance_command ::
  "database \<Rightarrow> string \<Rightarrow> string \<Rightarrow> string option \<Rightarrow> outcome \<times> database" where
  "process_attendance_command db usn_prefix text0 date =
     (let text = py_strip (py_lower text0);
          identifier = extract_identifier usn_prefix text
      in if falsy identifier then (failure CouldNotIdentifyStudent, db)
         else
           let status = extract_attendance_status text
           in if falsy status then (failure CouldNotDetermineStatus, db)
              else
                case fuzzy_find_student db (the identifier) of
                  (None, db1) \<Rightarrow> (failure (StudentNotFound (the identifier)), db1)
                | (Some (student_id, usn, name), db1) \<Rightarrow>
                    (case record_attendance db1 student_id date (the status) of
                       ((ok, msg), db2) \<Rightarrow>
                         if ok
                         then (\<lparr>success = True,
                                message = AttendanceMarked name usn (the status) date\<rparr>, db2)
                         else (failure msg, db2)))"

definition process_marks_command ::
  "database \<Rightarrow> string \<Rightarrow> string \<Rightarrow> string option \<Rightarrow> outcome \<times> database" where
  "process_marks_command db usn_prefix text0 ia_type =
     (let text = py_strip (py_lower text0);
          identifier = extract_identifier usn_prefix text
      in if falsy identifier then (failure CouldNotIdentifyStudent, db)
         else
           case fuzzy_find_student db (the identifier) of
             (None, db1) \<Rightarrow> (failure (StudentNotFound (the identifier)), db1)
           | (Some (student_id, usn, name), db1) \<Rightarrow>
               let marks_dict = extract_marks text
               in if marks_dict = [] then (failure CouldNotExtractMarks, db1)
                  else
                    let total_marks = sum_list (dict_values marks_dict)
                    in if 40 < total_marks then (failure (TotalExceedsMaximum total_marks), db1)
                       else
                         case record_ia_marks db1 student_id ia_type marks_dict total_marks of
                           ((ok, msg), db2) \<Rightarrow>
                             if ok
                             then (\<lparr>success = True,
                                    message = MarksConfirmed name usn ia_type
                                                (sort_key fst marks_dict) total_marks\<rparr>, db2)
                             else (failure msg, db2))"

definition process_text_command ::
  "database \<Rightarrow> string \<Rightarrow> string \<Rightarrow> string \<Rightarrow> string option \<Rightarrow> string option
     \<Rightarrow> outcome \<times> database" where
  "process_text_command db usn_prefix text command_type date ia_type =
     (if command_type = ''attendance'' then process_attendance_command db usn_prefix text date
      else if command_type = ''marks'' then process_marks_command db usn_prefix text ia_type
      else (failure InvalidCommandType, db))"

text \<open>
  Transcription is Whisper's work. \<open>whisper\<close> is \<open>None\<close> when the package is not
  installed; otherwise it is the model's transcription of an audio file, which is \<open>None\<close>
  when anything in the \<open>try\<close> block raises and the text otherwise.
\<close>

definition transcribe_audio :: "('audio \<Rightarrow> string option) option \<Rightarrow> 'audio \<Rightarrow> string option" where
  "transcribe_audio whisper audio_file =
     (case whisper of None \<Rightarrow> None | Some model \<Rightarrow> model audio_file)"

definition process_audio_file ::
  "('audio \<Rightarrow> string option) option \<Rightarrow> database \<Rightarrow> string \<Rightarrow> 'audio \<Rightarrow> string
     \<Rightarrow> string option \<Rightarrow> string option \<Rightarrow> outcome \<times> database" where
  "process_audio_file whisper db usn_prefix audio_file command_type date ia_type =
     (case transcribe_audio whisper audio_file of
        None \<Rightarrow> (failure FailedToTranscribe, db)
      | Some transcribed_text \<Rightarrow>
          process_text_command db usn_prefix transcribed_text command_type date ia_type)"

section \<open>Observations and concrete inputs\<close>

text \<open>The statements a command has executed: those logged since it started.\<close>

definition new_statements :: "database \<Rightarrow> database \<Rightarrow> statement list" where
  "new_statements db db' = drop (length (executed db)) (executed db')"

definition is_insert_marks :: "statement \<Rightarrow> bool" where
  "is_insert_marks st = (case st of InsertMarks _ _ _ _ \<Rightarrow> True | _ \<Rightarrow> False)"

text \<open>A store with no rows, and a Whisper model that hears nothing in any audio.\<close>

definition empty_db :: database where
  "empty_db = \<lparr>students = [], attendance = [], ia_marks = [], executed = []\<rparr>"

definition silent_model :: "unit \<Rightarrow> string option" where
  "silent_model audio_file = Some []"

text \<open>A pair of a question number and its marks, both in range.\<close>

definition entry_ok :: "int \<times> int \<Rightarrow> bool" where
  "entry_ok e = (1 \<le> fst e \<and> fst e \<le> 8 \<and> 0 \<le> snd e \<and> snd e \<le> 10)"

text \<open>A store with one student on the roster.\<close>

definition one_student_db :: database where
  "one_student_db =
     \<lparr>students = [(1, ''u7'', ''bo'')], attendance = [], ia_marks = [], executed = []\<rparr>"

text \<open>
  The lookup keys of a roster entry (its lowercased USN and name) and of the whole roster.
\<close>

definition student_keys :: "student \<Rightarrow> string set" where
  "student_keys st = {py_lower (fst (snd st)), py_lower (snd (snd st))}"

definition roster_keys :: "database \<Rightarrow> string set" where
  "roster_keys db = (\<Union>st \<in> set (students db). student_keys st)"

text \<open>A roster with two students of the same name.\<close>

definition two_bobs_db :: database where
  "two_bobs_db = \<lparr>students = [(1, ''u1'', ''bob''), (2, ''u2'', ''bob'')], attendance = [],
     ia_marks = [], executed = []\<rparr>"

section \<open>Notions for the identifier extractor\<close>








section \<open>Properties of the question-combination rule\<close>

lemma dict_has_iff: "dict_has k d \<longleftrightarrow> k \<in> set (dict_keys d)"
  by (simp add: dict_has_def dict_keys_def map_of_eq_None_iff)

lemma dict_card_keys: "is_dict d \<Longrightarrow> card (set (dict_keys d)) = dict_len d"
  unfolding is_dict_def dict_keys_def dict_len_def by (metis distinct_card length_map)

lemma range8: "(1::int) \<le> k \<and> k \<le> 8 \<longleftrightarrow> k \<in> {1,2} \<union> {3,4} \<union> {5,6} \<union> {7,8}"
  by auto

lemma keys_in_range_iff:
  "keys_in_range d \<longleftrightarrow> set (dict_keys d) \<subseteq> {1,2} \<union> {3,4} \<union> {5,6} \<union> {7,8}"
  unfolding keys_in_range_def list_all_iff range8 by blast

lemma pair_card:
  assumes "one_of_pair a b d"
  shows "card (set (dict_keys d) \<inter> {a, b}) = 1"
proof -
  have "set (dict_keys d) \<inter> {a, b} = {a} \<or> set (dict_keys d) \<inter> {a, b} = {b}"
    using assms unfolding one_of_pair_def dict_has_iff by blast
  then show ?thesis by auto
qed

lemma card4:
  fixes K :: "int set"
  assumes f: "finite K"
    and c: "card (K \<inter> {1,2}) = 1" "card (K \<inter> {3,4}) = 1"
           "card (K \<inter> {5,6}) = 1" "card (K \<inter> {7,8}) = 1"
  shows "card (K \<inter> ({1,2} \<union> {3,4} \<union> {5,6} \<union> {7,8})) = 4"
proof -
  let ?A = "K \<inter> {1,2}" and ?B = "K \<inter> {3,4}" and ?C = "K \<inter> {5,6}" and ?D = "K \<inter> {7,8}"
  have fin: "finite ?A" "finite ?B" "finite ?C" "finite ?D" using f by simp_all
  have d1: "?A \<inter> ?B = {}" by auto
  have d2: "(?A \<union> ?B) \<inter> ?C = {}" by auto
  have d3: "(?A \<union> ?B \<union> ?C) \<inter> ?D = {}" by auto
  have "card (?A \<union> ?B) = 2" using card_Un_disjoint[OF fin(1) fin(2) d1] c by simp
  moreover have "finite (?A \<union> ?B)" using fin by simp
  ultimately have "card (?A \<union> ?B \<union> ?C) = 3"
    using card_Un_disjoint[OF _ fin(3) d2] c by simp
  moreover have "finite (?A \<union> ?B \<union> ?C)" using fin by simp
  ultimately have "card (?A \<union> ?B \<union> ?C \<union> ?D) = 4"
    using card_Un_disjoint[OF _ fin(4) d3] c by simp
  moreover have "K \<inter> ({1,2} \<union> {3,4} \<union> {5,6} \<union> {7,8}) = ?A \<union> ?B \<union> ?C \<union> ?D"
    by blast
  ultimately show ?thesis by simp
qed

lemma validate_unfold:
  "validate_question_combination d \<longleftrightarrow> dict_len d = 4 \<and> one_from_each_pair d"
  unfolding validate_question_combination_def one_from_each_pair_def one_of_pair_def Let_def
  by (cases "dict_len d = 4") (simp_all, blast)

lemma one_each_card:
  assumes "one_from_each_pair d"
  shows "card (set (dict_keys d) \<inter> ({1,2} \<union> {3,4} \<union> {5,6} \<union> {7,8})) = 4"
  using assms unfolding one_from_each_pair_def
  by (intro card4) (simp_all add: pair_card)

lemma validate_iff_keys:
  assumes "is_dict d"
  shows "validate_question_combination d \<longleftrightarrow> keys_in_range d \<and> one_from_each_pair d"
proof (cases "one_from_each_pair d")
  case False
  then show ?thesis by (simp add: validate_unfold)
next
  case True
  let ?K = "set (dict_keys d)" and ?U = "{1,2} \<union> {3,4} \<union> {5,6} \<union> {7,8} :: int set"
  have c: "card (?K \<inter> ?U) = 4" using one_each_card[OF True] .
  have "dict_len d = 4 \<longleftrightarrow> ?K \<subseteq> ?U"
  proof
    assume "dict_len d = 4"
    then have "card ?K = card (?K \<inter> ?U)" using c dict_card_keys[OF assms] by simp
    then have "?K \<inter> ?U = ?K" by (intro card_subset_eq) simp_all
    then show "?K \<subseteq> ?U" by blast
  next
    assume "?K \<subseteq> ?U"
    then have "?K \<inter> ?U = ?K" by blast
    then show "dict_len d = 4" using c dict_card_keys[OF assms] by simp
  qed
  then show ?thesis using True by (simp add: validate_unfold keys_in_range_iff)
qed

text \<open>
  C1. \<open>validate_question_combination\<close> accepts a marks set (a dictionary, so its keys are
  distinct) if and only if its keys are question indices 1..8 with exactly one member of
  each of the pairs {1,2}, {3,4}, {5,6}, {7,8}; equivalently, if and only if it has exactly
  4 entries, at least one key of each pair and never both keys of a pair. Every other
  shape is rejected: the empty map, a map with more than 4 entries, a map with both
  members of a pair.
\<close>

theorem validate_question_combination_accepts_iff:
  assumes "is_dict d"
  shows "(validate_question_combination d \<longleftrightarrow> keys_in_range d \<and> one_from_each_pair d)
    \<and> (validate_question_combination d \<longleftrightarrow>
         dict_len d = 4
         \<and> (dict_has 1 d \<or> dict_has 2 d) \<and> (dict_has 3 d \<or> dict_has 4 d)
         \<and> (dict_has 5 d \<or> dict_has 6 d) \<and> (dict_has 7 d \<or> dict_has 8 d)
         \<and> \<not> (dict_has 1 d \<and> dict_has 2 d) \<and> \<not> (dict_has 3 d \<and> dict_has 4 d)
         \<and> \<not> (dict_has 5 d \<and> dict_has 6 d) \<and> \<not> (dict_has 7 d \<and> dict_has 8 d))
    \<and> (d = [] \<longrightarrow> \<not> validate_question_combination d)
    \<and> (4 < dict_len d \<longrightarrow> \<not> validate_question_combination d)
    \<and> ((dict_has 1 d \<and> dict_has 2 d) \<or> (dict_has 3 d \<and> dict_has 4 d)
        \<or> (dict_has 5 d \<and> dict_has 6 d) \<or> (dict_has 7 d \<and> dict_has 8 d)
        \<longrightarrow> \<not> validate_question_combination d)"
proof -
  have a: "validate_question_combination d \<longleftrightarrow> keys_in_range d \<and> one_from_each_pair d"
    by (rule validate_iff_keys[OF assms])
  have b: "validate_question_combination d \<longleftrightarrow>
         dict_len d = 4
         \<and> (dict_has 1 d \<or> dict_has 2 d) \<and> (dict_has 3 d \<or> dict_has 4 d)
         \<and> (dict_has 5 d \<or> dict_has 6 d) \<and> (dict_has 7 d \<or> dict_has 8 d)
         \<and> \<not> (dict_has 1 d \<and> dict_has 2 d) \<and> \<not> (dict_has 3 d \<and> dict_has 4 d)
         \<and> \<not> (dict_has 5 d \<and> dict_has 6 d) \<and> \<not> (dict_has 7 d \<and> dict_has 8 d)"
    unfolding validate_unfold one_from_each_pair_def one_of_pair_def by blast
  have c: "d = [] \<longrightarrow> \<not> validate_question_combination d"
    by (auto simp: validate_unfold dict_len_def)
  have e: "4 < dict_len d \<longrightarrow> \<not> validate_question_combination d"
    by (simp add: validate_unfold)
  have f: "(dict_has 1 d \<and> dict_has 2 d) \<or> (dict_has 3 d \<and> dict_has 4 d)
        \<or> (dict_has 5 d \<and> dict_has 6 d) \<or> (dict_has 7 d \<and> dict_has 8 d)
        \<longrightarrow> \<not> validate_question_combination d"
    unfolding b by blast
  from a b c e f show ?thesis by blast
qed

theorem validate_question_combination_accepts_iff_witness:
  "is_dict ([(1, 8), (3, 7), (6, 9), (8, 8)] :: marks_set)
   \<and> validate_question_combination ([(1, 8), (3, 7), (6, 9), (8, 8)] :: marks_set)
   \<and> keys_in_range ([(1, 8), (3, 7), (6, 9), (8, 8)] :: marks_set)
   \<and> one_from_each_pair ([(1, 8), (3, 7), (6, 9), (8, 8)] :: marks_set)
   \<and> is_dict ([] :: marks_set) \<and> \<not> validate_question_combination []
   \<and> is_dict ([(1, 8), (3, 7), (5, 9), (7, 8), (9, 1)] :: marks_set)
   \<and> 4 < dict_len ([(1, 8), (3, 7), (5, 9), (7, 8), (9, 1)] :: marks_set)
   \<and> one_from_each_pair ([(1, 8), (3, 7), (5, 9), (7, 8), (9, 1)] :: marks_set)
   \<and> \<not> validate_question_combination ([(1, 8), (3, 7), (5, 9), (7, 8), (9, 1)] :: marks_set)
   \<and> is_dict ([(1, 8), (2, 7), (5, 9), (7, 8)] :: marks_set)
   \<and> dict_has 1 ([(1, 8), (2, 7), (5, 9), (7, 8)] :: marks_set)
   \<and> dict_has 2 ([(1, 8), (2, 7), (5, 9), (7, 8)] :: marks_set)
   \<and> \<not> validate_question_combination ([(1, 8), (2, 7), (5, 9), (7, 8)] :: marks_set)"
proof -
  have h1: "is_dict ([(1, 8), (3, 7), (6, 9), (8, 8)] :: marks_set)" by (simp add: is_dict_def)
  have h2: "is_dict ([] :: marks_set)" by (simp add: is_dict_def)
  have h3: "is_dict ([(1, 8), (3, 7), (5, 9), (7, 8), (9, 1)] :: marks_set)" by (simp add: is_dict_def)
  have h4: "is_dict ([(1, 8), (2, 7), (5, 9), (7, 8)] :: marks_set)" by (simp add: is_dict_def)
  have k: "keys_in_range ([(1, 8), (3, 7), (6, 9), (8, 8)] :: marks_set)"
    by (simp add: keys_in_range_def dict_keys_def)
  have o: "one_from_each_pair ([(1, 8), (3, 7), (6, 9), (8, 8)] :: marks_set)"
    by (simp add: one_from_each_pair_def one_of_pair_def dict_has_def)
  have o5: "one_from_each_pair ([(1, 8), (3, 7), (5, 9), (7, 8), (9, 1)] :: marks_set)"
    by (simp add: one_from_each_pair_def one_of_pair_def dict_has_def)
  have l5: "4 < dict_len ([(1, 8), (3, 7), (5, 9), (7, 8), (9, 1)] :: marks_set)"
    by (simp add: dict_len_def)
  have b: "dict_has 1 ([(1, 8), (2, 7), (5, 9), (7, 8)] :: marks_set)"
          "dict_has 2 ([(1, 8), (2, 7), (5, 9), (7, 8)] :: marks_set)"
    by (simp_all add: dict_has_def)
  note t1 = validate_question_combination_accepts_iff[OF h1]
  note t2 = validate_question_combination_accepts_iff[OF h2]
  note t3 = validate_question_combination_accepts_iff[OF h3]
  note t4 = validate_question_combination_accepts_iff[OF h4]
  have v1: "validate_question_combination ([(1, 8), (3, 7), (6, 9), (8, 8)] :: marks_set)"
    using conjunct1[OF t1] k o by simp
  have v2: "\<not> validate_question_combination ([] :: marks_set)"
    using conjunct1[OF conjunct2[OF conjunct2[OF t2]]] by simp
  have v3: "\<not> validate_question_combination
              ([(1, 8), (3, 7), (5, 9), (7, 8), (9, 1)] :: marks_set)"
    using conjunct1[OF conjunct2[OF conjunct2[OF conjunct2[OF t3]]]] l5 by simp
  have v4: "\<not> validate_question_combination ([(1, 8), (2, 7), (5, 9), (7, 8)] :: marks_set)"
    using conjunct2[OF conjunct2[OF conjunct2[OF conjunct2[OF t4]]]] b by simp
  show ?thesis
    by (intro conjI h1 h2 h3 h4 k o o5 l5 b v1 v2 v3 v4)
qed

section \<open>Properties of the prefix expansion\<close>

text \<open>
  C2. For every prefix \<open>p\<close> and every digit string \<open>d\<close> of length 2 or 3, the expansion is a
  function of \<open>p\<close> and \<open>d\<close> alone: when \<open>p\<close> ends with the character 0 (so \<open>p\<close> is some \<open>q\<close>
  followed by 0) and \<open>d\<close> has length 3, the result is \<open>p\<close> without its last character,
  followed by \<open>d\<close>; in every other case it is \<open>p\<close> followed by \<open>d\<close>.
\<close>

theorem expand_usn_spec:
  assumes "length d = 2 \<or> length d = 3"
  shows "(endswith_char p CHR ''0'' \<and> length d = 3
            \<longrightarrow> expand_usn p d = butlast p @ d \<and> p = butlast p @ ''0'')
       \<and> (\<not> (endswith_char p CHR ''0'' \<and> length d = 3) \<longrightarrow> expand_usn p d = p @ d)"
proof -
  have "p = butlast p @ ''0''" if "endswith_char p CHR ''0''"
    using that append_butlast_last_id[of p] by (simp add: endswith_char_def)
  then show ?thesis
    by (simp add: expand_usn_def endswith_char_def drop_last_def)
qed

theorem expand_usn_spec_witness:
  "expand_usn ''1GA23CI0'' ''106'' = ''1GA23CI106''
   \<and> expand_usn ''1GA23CI0'' ''24'' = ''1GA23CI024''
   \<and> expand_usn ''1GA23CI'' ''106'' = ''1GA23CI106''"
proof -
  have l3: "length ''106'' = 2 \<or> length ''106'' = 3" by simp
  have l2: "length ''24'' = 2 \<or> length ''24'' = 3" by simp
  have e: "endswith_char ''1GA23CI0'' CHR ''0''" "\<not> endswith_char ''1GA23CI'' CHR ''0''"
    by (simp_all add: endswith_char_def)
  show ?thesis
    using expand_usn_spec[OF l3, of "''1GA23CI0''"] expand_usn_spec[OF l2, of "''1GA23CI0''"]
      expand_usn_spec[OF l3, of "''1GA23CI''"] e
    by simp
qed

section \<open>Properties of the identifier extractor\<close>

text \<open>
  C6. The token after \<open>usn\<close> is expanded when it is numeric, at most 3 characters long
  and a prefix is set: a single digit is expanded too. With the prefix \<open>1GA23CI0\<close> the
  transcript \<open>usn 5 is present\<close> gives \<open>1GA23CI05\<close>, not the token \<open>5\<close>.
\<close>

theorem extract_identifier_one_digit_usn:
  "extract_identifier ''1GA23CI0'' ''usn 5 is present'' = Some ''1GA23CI05''"
  by code_simp

section \<open>Properties of the digit-merge correction\<close>

text \<open>
  C7. The first substitution matches \<open>question 18 mark\<close> and leaves the final \<open>s\<close> of
  \<open>marks\<close> in the text: \<open>question 18 marks\<close> becomes \<open>question 1 8 markss\<close>.
\<close>

theorem fix_transcription_errors_marks_suffix:
  "fix_transcription_errors ''question 18 marks'' = ''question 1 8 markss''"
  by code_simp

section \<open>Properties of the audio command\<close>

lemma extract_identifier_empty: "extract_identifier p [] = None"
  by (cases "p = []") (simp_all add: extract_identifier_def re_search_def usn_pattern_def digit_pattern_def
    status_pattern_def marks_patterns_def ci_prefix_def py_split_def)

lemma py_strip_lower_empty: "py_strip (py_lower []) = []"
  by (simp add: py_strip_def py_lower_def)

text \<open>
  C9. A transcription that fails (Whisper is missing or raises) ends the audio command
  with the unsuccessful outcome "Failed to transcribe audio" and the store as it was. An
  empty transcription does not: \<open>process_audio_file\<close> tests the text against \<open>None\<close>
  only, so the empty text goes on to the text command, which ends with "Could not
  identify student from command". (The recording path of \<open>app.py\<close> tests
  \<open>if transcribed_text\<close> and reports the empty text as a failure.)
\<close>

theorem process_audio_file_empty_transcription:
  "transcribe_audio (None :: (unit \<Rightarrow> string option) option) () = None
   \<and> process_audio_file None empty_db [] () ''attendance'' None None
       = (failure FailedToTranscribe, empty_db)
   \<and> transcribe_audio (Some silent_model) () = Some []
   \<and> process_audio_file (Some silent_model) empty_db [] () ''attendance'' None None
       = (failure CouldNotIdentifyStudent, empty_db)
   \<and> process_audio_file (Some silent_model) empty_db [] () ''marks'' None None
       = (failure CouldNotIdentifyStudent, empty_db)
   \<and> failure CouldNotIdentifyStudent \<noteq> failure FailedToTranscribe"
  by (simp add: process_audio_file_def transcribe_audio_def silent_model_def
      process_text_command_def process_attendance_command_def process_marks_command_def
      py_strip_lower_empty extract_identifier_empty falsy_def failure_def)

section \<open>Properties of the attendance command\<close>

lemma fuzzy_find_student_executed:
  "executed (snd (fuzzy_find_student db i)) = executed db @ [SelectStudents]"
  and fuzzy_find_student_tables:
  "students (snd (fuzzy_find_student db i)) = students db"
  "attendance (snd (fuzzy_find_student db i)) = attendance db"
  "ia_marks (snd (fuzzy_find_student db i)) = ia_marks db"
  by (simp_all add: fuzzy_find_student_def log_statement_def Let_def split: option.splits)

lemma record_attendance_message:
  "fst (fst (record_attendance db s d st)) \<Longrightarrow> snd (fst (record_attendance db s d st)) = AttendanceRecorded"
  "\<not> fst (fst (record_attendance db s d st)) \<Longrightarrow> snd (fst (record_attendance db s d st)) = ErrorRecordingAttendance"
  by (auto simp: record_attendance_def Let_def split: option.splits if_splits)

lemma falsy_iff: "\<not> falsy x \<longleftrightarrow> (\<exists>s. x = Some s \<and> s \<noteq> [])"
  by (cases x) (simp_all add: falsy_def)

lemma status_nonempty: "extract_attendance_status t = Some s \<Longrightarrow> s \<noteq> []"
  by (auto simp: extract_attendance_status_def split: if_splits)

lemma falsy_status: "falsy (extract_attendance_status t) \<longleftrightarrow> extract_attendance_status t = None"
  by (auto simp: extract_attendance_status_def falsy_def)

text \<open>
  C5, as the code has it. The status is extracted before the roster is searched. An
  attendance command whose identifier was extracted and whose transcript contains neither
  \<open>present\<close> nor \<open>absent\<close> ends with "Could not determine attendance status" and the store
  untouched, whether or not the identifier is on the roster. The outcome "Student not
  found" (naming the identifier) occurs exactly when the identifier was extracted, the
  transcript contains \<open>present\<close> or \<open>absent\<close>, and the identifier matches no roster entry.
\<close>

theorem attendance_status_before_roster:
  fixes raw_text :: string
  defines "text \<equiv> py_strip (py_lower raw_text)"
  shows "(\<not> falsy (extract_identifier usn_prefix text) \<and> extract_attendance_status text = None
          \<longrightarrow> process_attendance_command db usn_prefix raw_text date
                = (failure CouldNotDetermineStatus, db))
    \<and> (fst (process_attendance_command db usn_prefix raw_text date) = failure (StudentNotFound i)
          \<longleftrightarrow> extract_identifier usn_prefix text = Some i \<and> i \<noteq> []
              \<and> extract_attendance_status text \<noteq> None
              \<and> fst (fuzzy_find_student db i) = None)"
proof -
  have a: "\<not> falsy (extract_identifier usn_prefix text) \<and> extract_attendance_status text = None
          \<longrightarrow> process_attendance_command db usn_prefix raw_text date
                = (failure CouldNotDetermineStatus, db)"
    by (auto simp: process_attendance_command_def text_def Let_def falsy_def)
  have b: "fst (process_attendance_command db usn_prefix raw_text date) = failure (StudentNotFound i)
          \<longleftrightarrow> extract_identifier usn_prefix text = Some i \<and> i \<noteq> []
              \<and> extract_attendance_status text \<noteq> None
              \<and> fst (fuzzy_find_student db i) = None"
  proof (cases "falsy (extract_identifier usn_prefix text)")
    case True
    then show ?thesis
      by (auto simp: process_attendance_command_def text_def[symmetric] Let_def failure_def falsy_def
          split: option.splits)
  next
    case False
    then obtain j where j: "extract_identifier usn_prefix text = Some j" "j \<noteq> []"
      using falsy_iff by blast
    show ?thesis
    proof (cases "extract_attendance_status text")
      case None
      then show ?thesis using False
        by (simp add: process_attendance_command_def text_def[symmetric] Let_def failure_def falsy_def)
    next
      case (Some st)
      have nf: "\<not> falsy (Some st)"
        using status_nonempty[OF Some] by (simp add: falsy_def)
      show ?thesis
      proof (cases "fuzzy_find_student db j")
        case (Pair r db1)
        show ?thesis
        proof (cases r)
          case None
          then show ?thesis using False Some Pair j nf
            by (auto simp: process_attendance_command_def text_def[symmetric] Let_def failure_def)
        next
          case (Some e)
          obtain sid usn name where e: "e = (sid, usn, name)" by (cases e) auto
          obtain ok msg db2 where r: "record_attendance db1 sid date st = ((ok, msg), db2)"
            by (metis surj_pair)
          have "msg \<noteq> StudentNotFound i"
            using record_attendance_message[of db1 sid date st] r by (cases ok) auto
          then show ?thesis using False \<open>extract_attendance_status text = Some st\<close> Pair j Some e r nf
            by (auto simp: process_attendance_command_def text_def[symmetric] Let_def failure_def)
        qed
      qed
    qed
  qed
  from a b show ?thesis by blast
qed

theorem attendance_status_before_roster_witness:
  "process_attendance_command empty_db [] ''bob'' (Some ''2024-01-01'')
     = (failure CouldNotDetermineStatus, empty_db)
   \<and> fst (process_attendance_command empty_db [] ''bob is present'' (Some ''2024-01-01''))
       = failure (StudentNotFound ''bob'')"
proof -
  have h1: "\<not> falsy (extract_identifier [] (py_strip (py_lower ''bob'')))
      \<and> extract_attendance_status (py_strip (py_lower ''bob'')) = None"
    by code_simp
  have h2: "extract_identifier [] (py_strip (py_lower ''bob is present'')) = Some ''bob''
      \<and> ''bob'' \<noteq> []
      \<and> extract_attendance_status (py_strip (py_lower ''bob is present'')) \<noteq> None
      \<and> fst (fuzzy_find_student empty_db ''bob'') = None"
    by code_simp
  note t1 = attendance_status_before_roster[where raw_text = "''bob''" and usn_prefix = "[]"
      and db = empty_db and date = "Some ''2024-01-01''"]
  note t2 = attendance_status_before_roster[where raw_text = "''bob is present''"
      and usn_prefix = "[]" and db = empty_db and date = "Some ''2024-01-01''" and i = "''bob''"]
  have a: "process_attendance_command empty_db [] ''bob'' (Some ''2024-01-01'')
     = (failure CouldNotDetermineStatus, empty_db)"
    using conjunct1[OF t1] h1 by blast
  have b: "fst (process_attendance_command empty_db [] ''bob is present'' (Some ''2024-01-01''))
       = failure (StudentNotFound ''bob'')"
    using conjunct2[OF t2] h2 by blast
  show ?thesis by (intro conjI a b)
qed

text \<open>
  C5, as the claim states it, fails: \<open>bob\<close> is on no roster and the transcript has no
  status word; the outcome is the missing status, not the missing student.
\<close>

theorem attendance_roster_first_counterexample:
  "fst (fuzzy_find_student empty_db ''bob'') = None
   \<and> extract_identifier [] (py_strip (py_lower ''bob'')) = Some ''bob''
   \<and> fst (process_attendance_command empty_db [] ''bob'' (Some ''2024-01-01''))
       = failure CouldNotDetermineStatus
   \<and> fst (process_attendance_command empty_db [] ''bob'' (Some ''2024-01-01''))
       \<noteq> failure (StudentNotFound ''bob'')"
  by code_simp

section \<open>Properties of the marks extractor\<close>

lemma dict_set_entries: "set (dict_set k v d) \<subseteq> insert (k, v) (set d)"
  unfolding dict_set_def by (induction d) auto

lemma dict_set_is_dict: "is_dict d \<Longrightarrow> is_dict (dict_set k v d)"
  unfolding dict_set_def is_dict_def by (rule distinct_update)

lemma store_match_ok:
  assumes "list_all entry_ok d"
  shows "list_all entry_ok (store_match f d m)"
proof -
  have "list_all entry_ok (dict_set q v d)" if "entry_ok (q, v)" for q v
    using that assms dict_set_entries[of q v d] unfolding list_all_iff by blast
  then show ?thesis using assms
    by (simp add: store_match_def Let_def entry_ok_def)
qed

lemma store_match_is_dict: "is_dict d \<Longrightarrow> is_dict (store_match f d m)"
  by (simp add: store_match_def Let_def dict_set_is_dict)

lemma foldl_store_match_ok:
  "list_all entry_ok d \<Longrightarrow> list_all entry_ok (foldl (store_match f) d ms)"
  by (induction ms arbitrary: d) (simp_all add: store_match_ok)

lemma foldl_store_match_is_dict:
  "is_dict d \<Longrightarrow> is_dict (foldl (store_match f) d ms)"
  by (induction ms arbitrary: d) (simp_all add: store_match_is_dict)

lemma foldl_scan_pattern_ok:
  "list_all entry_ok d \<Longrightarrow> list_all entry_ok (foldl (scan_pattern text) d ps)"
  by (induction ps arbitrary: d) (simp_all add: scan_pattern_def foldl_store_match_ok)

lemma foldl_scan_pattern_is_dict:
  "is_dict d \<Longrightarrow> is_dict (foldl (scan_pattern text) d ps)"
  by (induction ps arbitrary: d) (simp_all add: scan_pattern_def foldl_store_match_is_dict)

lemma extract_marks_ok: "list_all entry_ok (extract_marks text)"
proof -
  have e: "list_all entry_ok ([] :: marks_set)" by simp
  show ?thesis
    unfolding extract_marks_def Let_def
    using foldl_scan_pattern_ok[OF e] foldl_store_match_ok[OF e] by simp
qed

lemma extract_marks_is_dict: "is_dict (extract_marks text)"
proof -
  have e: "is_dict ([] :: marks_set)" by (simp add: is_dict_def)
  show ?thesis
    unfolding extract_marks_def Let_def
    using foldl_scan_pattern_is_dict[OF e] foldl_store_match_is_dict[OF e] by simp
qed

text \<open>
  C4. For every text, every entry (question index, score) of the marks set returned by
  \<open>extract_marks\<close> has its question index in 1..8 and its score in 0..10, whether it
  comes from the seven primary patterns or from the looser fallback pattern; the keys of
  the result are distinct.
\<close>

theorem extract_marks_in_range:
  "(\<forall>(q, m) \<in> set (extract_marks text). 1 \<le> q \<and> q \<le> 8 \<and> 0 \<le> m \<and> m \<le> 10)
   \<and> (\<forall>q m. dict_get (extract_marks text) q = Some m
         \<longrightarrow> 1 \<le> q \<and> q \<le> 8 \<and> 0 \<le> m \<and> m \<le> 10)
   \<and> is_dict (extract_marks text)"
proof -
  have a: "\<forall>(q, m) \<in> set (extract_marks text). 1 \<le> q \<and> q \<le> 8 \<and> 0 \<le> m \<and> m \<le> 10"
    using extract_marks_ok[of "text"] unfolding list_all_iff entry_ok_def by auto
  have b: "1 \<le> q \<and> q \<le> 8 \<and> 0 \<le> m \<and> m \<le> 10"
    if "dict_get (extract_marks text) q = Some m" for q m
  proof -
    have "(q, m) \<in> set (extract_marks text)"
      using that unfolding dict_get_def by (rule map_of_SomeD)
    then show ?thesis using a by blast
  qed
  show ?thesis using a b extract_marks_is_dict by blast
qed

theorem extract_marks_in_range_witness:
  "(3, 9) \<in> set (extract_marks ''q3 9'')
   \<and> dict_get (extract_marks ''q3 9'') 3 = Some 9
   \<and> extract_marks ''7 question 2'' = [(2, 7)]
   \<and> extract_marks ''q9 8'' = []
   \<and> (1 :: int) \<le> 3 \<and> (3 :: int) \<le> 8 \<and> (0 :: int) \<le> 9 \<and> (9 :: int) \<le> 10"
proof -
  have e: "extract_marks ''q3 9'' = [(3, 9)]" by code_simp
  have m: "(3, 9) \<in> set (extract_marks ''q3 9'')" by (simp add: e)
  have g: "dict_get (extract_marks ''q3 9'') 3 = Some 9" by (simp add: e dict_get_def)
  have f: "extract_marks ''7 question 2'' = [(2, 7)]" by code_simp
  have n: "extract_marks ''q9 8'' = []" by code_simp
  note t = extract_marks_in_range[of "''q3 9''"]
  have r: "(1 :: int) \<le> 3 \<and> (3 :: int) \<le> 8 \<and> (0 :: int) \<le> 9 \<and> (9 :: int) \<le> 10"
    using conjunct1[OF conjunct2[OF t]] g by blast
  show ?thesis by (intro conjI m g f n conjunct1[OF r] conjunct1[OF conjunct2[OF r]]
      conjunct1[OF conjunct2[OF conjunct2[OF r]]] conjunct2[OF conjunct2[OF conjunct2[OF r]]])
qed

section \<open>Properties of the marks command\<close>

lemma new_statements_append: "executed db' = executed db @ xs \<Longrightarrow> new_statements db db' = xs"
  by (simp add: new_statements_def)

lemma new_statements_same: "new_statements db db = []"
  by (simp add: new_statements_def)

lemma record_ia_marks_invalid:
  "\<not> validate_question_combination md \<Longrightarrow>
     record_ia_marks db s a md tot = ((False, InvalidQuestionCombination), db)"
  by (simp add: record_ia_marks_def)

lemma record_ia_marks_valid:
  assumes "validate_question_combination md"
  shows "executed (snd (record_ia_marks db s a md tot)) = executed db @ [InsertMarks s a md tot]"
  using assms
  by (simp add: record_ia_marks_def log_statement_def Let_def split: option.splits)

lemma record_ia_marks_tables:
  "\<not> fst (fst (record_ia_marks db s a md tot)) \<Longrightarrow>
     ia_marks (snd (record_ia_marks db s a md tot)) = ia_marks db"
  by (auto simp: record_ia_marks_def log_statement_def Let_def split: option.splits if_splits)

text \<open>What a marks command leaves behind, branch by branch.\<close>

lemma process_marks_command_cases:
  fixes raw_text usn_prefix :: string and db :: database and ia_type :: "string option"
  defines "text \<equiv> py_strip (py_lower raw_text)"
  defines "r \<equiv> process_marks_command db usn_prefix raw_text ia_type"
  defines "md \<equiv> extract_marks text"
  shows "(\<not> success (fst r) \<and> ia_marks (snd r) = ia_marks db
            \<and> (new_statements db (snd r) = [] \<or> new_statements db (snd r) = [SelectStudents]))
       \<or> (validate_question_combination md \<and> sum_list (dict_values md) \<le> 40
            \<and> (\<exists>sid. new_statements db (snd r)
                   = [SelectStudents, InsertMarks sid ia_type md (sum_list (dict_values md))]))"
proof (cases "falsy (extract_identifier usn_prefix text)")
  case True
  then have "r = (failure CouldNotIdentifyStudent, db)"
    by (simp add: r_def process_marks_command_def text_def Let_def)
  then show ?thesis by (simp add: failure_def new_statements_same)
next
  case False
  define i where "i = the (extract_identifier usn_prefix text)"
  obtain found db1 where f: "fuzzy_find_student db i = (found, db1)" by (metis surj_pair)
  have ex1: "executed db1 = executed db @ [SelectStudents]"
    using fuzzy_find_student_executed[of db i] f by simp
  have ia1: "ia_marks db1 = ia_marks db"
    using fuzzy_find_student_tables(3)[of db i] f by simp
  have n1: "new_statements db db1 = [SelectStudents]"
    by (rule new_statements_append[OF ex1])
  show ?thesis
  proof (cases found)
    case None
    then have "r = (failure (StudentNotFound i), db1)"
      using False f
      by (simp add: r_def process_marks_command_def text_def[symmetric] Let_def i_def)
    then show ?thesis by (simp add: failure_def n1 ia1)
  next
    case (Some e)
    obtain sid usn name where e: "e = (sid, usn, name)" by (cases e) auto
    have unfold: "r = (if md = [] then (failure CouldNotExtractMarks, db1)
        else if 40 < sum_list (dict_values md)
             then (failure (TotalExceedsMaximum (sum_list (dict_values md))), db1)
             else case record_ia_marks db1 sid ia_type md (sum_list (dict_values md)) of
                    ((ok, msg), db2) \<Rightarrow>
                      if ok then (\<lparr>success = True,
                                    message = MarksConfirmed name usn ia_type (sort_key fst md)
                                                (sum_list (dict_values md))\<rparr>, db2)
                      else (failure msg, db2))"
      using False f Some e
      by (simp add: r_def process_marks_command_def text_def[symmetric] Let_def i_def
          md_def[symmetric])
    show ?thesis
    proof (cases "md = [] \<or> 40 < sum_list (dict_values md)")
      case True
      then have "\<not> success (fst r) \<and> snd r = db1"
        using unfold by (auto simp: failure_def)
      then show ?thesis by (simp add: n1 ia1)
    next
      case nonempty: False
      let ?tot = "sum_list (dict_values md)"
      obtain ok msg db2 where rec: "record_ia_marks db1 sid ia_type md ?tot = ((ok, msg), db2)"
        by (metis surj_pair)
      have r2: "r = (if ok then (\<lparr>success = True,
                                    message = MarksConfirmed name usn ia_type (sort_key fst md) ?tot\<rparr>, db2)
                     else (failure msg, db2))"
        using unfold nonempty rec by simp
      show ?thesis
      proof (cases "validate_question_combination md")
        case False
        then have "ok = False \<and> db2 = db1"
          using record_ia_marks_invalid[of md db1 sid ia_type ?tot] rec by simp
        then show ?thesis using r2 by (simp add: failure_def n1 ia1)
      next
        case True
        have "executed db2 = executed db1 @ [InsertMarks sid ia_type md ?tot]"
          using record_ia_marks_valid[OF True, of db1 sid ia_type ?tot] rec by simp
        then have "executed db2 = executed db @ [SelectStudents, InsertMarks sid ia_type md ?tot]"
          using ex1 by simp
        then have "new_statements db db2 = [SelectStudents, InsertMarks sid ia_type md ?tot]"
          by (rule new_statements_append)
        moreover have "snd r = db2" using r2 by simp
        ultimately show ?thesis using True nonempty by auto
      qed
    qed
  qed
qed

text \<open>
  C3. For every text and assessment type: whenever the marks command executes the insert
  into \<open>ia_marks\<close>, the marks set it inserts is the one extracted from the normalised
  text, has exactly 4 entries with exactly one key of each of the pairs {1,2}, {3,4},
  {5,6}, {7,8}, and the sum of its values, which is the total inserted, is at most 40.
  A command whose extracted marks set fails the pairing rule or sums to more than 40
  ends with an unsuccessful outcome, executes no insert into \<open>ia_marks\<close> and leaves that
  table as it was.
\<close>

theorem marks_persisted_only_when_valid:
  fixes raw_text usn_prefix :: string and db :: database and ia_type :: "string option"
  defines "text \<equiv> py_strip (py_lower raw_text)"
  defines "r \<equiv> process_marks_command db usn_prefix raw_text ia_type"
  shows "(\<forall>sid a md tot. InsertMarks sid a md tot \<in> set (new_statements db (snd r)) \<longrightarrow>
            md = extract_marks text \<and> dict_len md = 4 \<and> one_from_each_pair md
            \<and> keys_in_range md \<and> sum_list (dict_values md) \<le> 40
            \<and> tot = sum_list (dict_values md))
       \<and> (\<not> (validate_question_combination (extract_marks text)
               \<and> sum_list (dict_values (extract_marks text)) \<le> 40) \<longrightarrow>
            \<not> success (fst r)
            \<and> list_all (\<lambda>st. \<not> is_insert_marks st) (new_statements db (snd r))
            \<and> ia_marks (snd r) = ia_marks db)"
proof -
  let ?md = "extract_marks text"
  note c = process_marks_command_cases[of db usn_prefix raw_text ia_type,
      folded text_def r_def]
  have v: "dict_len ?md = 4 \<and> one_from_each_pair ?md \<and> keys_in_range ?md"
    if "validate_question_combination ?md"
    using that validate_unfold[of ?md] validate_iff_keys[OF extract_marks_is_dict, of "text"]
    by blast
  have a: "md = ?md \<and> dict_len md = 4 \<and> one_from_each_pair md
            \<and> keys_in_range md \<and> sum_list (dict_values md) \<le> 40
            \<and> tot = sum_list (dict_values md)"
    if "InsertMarks sid a md tot \<in> set (new_statements db (snd r))" for sid a md tot
    using c that v by auto
  have b: "\<not> success (fst r)
            \<and> list_all (\<lambda>st. \<not> is_insert_marks st) (new_statements db (snd r))
            \<and> ia_marks (snd r) = ia_marks db"
    if "\<not> (validate_question_combination ?md \<and> sum_list (dict_values ?md) \<le> 40)"
    using c that by (auto simp: is_insert_marks_def)
  show ?thesis using a b by blast
qed

theorem marks_persisted_only_when_valid_witness:
  "InsertMarks 1 (Some ''IA1'') [(1, 8), (3, 7), (5, 9), (8, 6)] 30
     \<in> set (new_statements one_student_db
           (snd (process_marks_command one_student_db [] ''bo ia1 q1 8 q3 7 q5 9 q8 6''
                  (Some ''IA1''))))
   \<and> dict_len ([(1, 8), (3, 7), (5, 9), (8, 6)] :: marks_set) = 4
   \<and> one_from_each_pair [(1, 8), (3, 7), (5, 9), (8, 6)]
   \<and> sum_list (dict_values ([(1, 8), (3, 7), (5, 9), (8, 6)] :: marks_set)) \<le> 40
   \<and> \<not> validate_question_combination (extract_marks (py_strip (py_lower ''bo ia1 q1 8'')))
   \<and> \<not> success (fst (process_marks_command one_student_db [] ''bo ia1 q1 8'' (Some ''IA1'')))"
proof -
  have e: "new_statements one_student_db
             (snd (process_marks_command one_student_db [] ''bo ia1 q1 8 q3 7 q5 9 q8 6''
                    (Some ''IA1'')))
           = [SelectStudents, InsertMarks 1 (Some ''IA1'') [(1, 8), (3, 7), (5, 9), (8, 6)] 30]"
    by code_simp
  have m: "InsertMarks 1 (Some ''IA1'') [(1, 8), (3, 7), (5, 9), (8, 6)] 30
     \<in> set (new_statements one_student_db
           (snd (process_marks_command one_student_db [] ''bo ia1 q1 8 q3 7 q5 9 q8 6''
                  (Some ''IA1''))))"
    by (simp add: e)
  have n: "\<not> validate_question_combination (extract_marks (py_strip (py_lower ''bo ia1 q1 8'')))"
    by code_simp
  note t1 = marks_persisted_only_when_valid[where raw_text = "''bo ia1 q1 8 q3 7 q5 9 q8 6''"
      and usn_prefix = "[]" and db = one_student_db and ia_type = "Some ''IA1''"]
  note t2 = marks_persisted_only_when_valid[where raw_text = "''bo ia1 q1 8''"
      and usn_prefix = "[]" and db = one_student_db and ia_type = "Some ''IA1''"]
  have a: "dict_len ([(1, 8), (3, 7), (5, 9), (8, 6)] :: marks_set) = 4
   \<and> one_from_each_pair [(1, 8), (3, 7), (5, 9), (8, 6)]
   \<and> sum_list (dict_values ([(1, 8), (3, 7), (5, 9), (8, 6)] :: marks_set)) \<le> 40"
    using conjunct1[OF t1] m by blast
  have b: "\<not> success (fst (process_marks_command one_student_db [] ''bo ia1 q1 8'' (Some ''IA1'')))"
    using conjunct2[OF t2] n by blast
  show ?thesis using m a n b by blast
qed

section \<open>Properties of the fuzzy roster matcher\<close>

lemma lcs_le: "lcs xs ys \<le> length xs \<and> lcs xs ys \<le> length ys"
  by (induction xs ys rule: lcs.induct) auto

lemma lcs_same: "lcs xs xs = length xs"
  by (induction xs) auto

lemma lcs_full:
  "lcs xs ys = length xs \<Longrightarrow> length xs = length ys \<Longrightarrow> xs = ys"
proof (induction xs ys rule: lcs.induct)
  case (3 x xs y ys)
  show ?case
  proof (cases "x = y")
    case True
    then show ?thesis using 3 by simp
  next
    case False
    have "lcs (x # xs) ys \<le> length ys" "lcs xs (y # ys) \<le> length xs"
      using lcs_le by blast+
    then show ?thesis using 3(4,5) False by simp
  qed
qed simp_all

lemma ratio_le: "0 < n \<Longrightarrow> (100 * of_nat a / of_nat n \<le> (100 :: rat)) = (a \<le> n)"
  by (simp add: divide_le_eq)

lemma ratio_eq: "0 < n \<Longrightarrow> (100 * of_nat a / of_nat n = (100 :: rat)) = (a = n)"
  by (simp add: divide_eq_eq)

lemma fuzz_ratio_unfold:
  "0 < length s + length t \<Longrightarrow>
     fuzz_ratio s t = 100 * of_nat (2 * lcs s t) / of_nat (length s + length t)"
  unfolding fuzz_ratio_def by (simp only: if_False less_numeral_extra(3) neq0_conv[symmetric])

lemma fuzz_ratio_le: "fuzz_ratio s t \<le> 100"
proof (cases "0 < length s + length t")
  case False
  then show ?thesis by (simp add: fuzz_ratio_def)
next
  case True
  have "2 * lcs s t \<le> length s + length t" using lcs_le[of s t] by linarith
  then show ?thesis
    unfolding fuzz_ratio_unfold[OF True] ratio_le[OF True] .
qed

lemma fuzz_ratio_same: "fuzz_ratio s s = 100"
  by (simp add: fuzz_ratio_def lcs_same)

lemma fuzz_ratio_full: 
  assumes "fuzz_ratio s t = 100"
  shows "s = t"
proof (cases "0 < length s + length t")
  case False
  then show ?thesis by simp
next
  case True
  have "2 * lcs s t = length s + length t"
    using assms unfolding fuzz_ratio_unfold[OF True] ratio_eq[OF True] .
  then have "lcs s t = length s \<and> length s = length t"
    using lcs_le[of s t] by linarith
  then show ?thesis using lcs_full by blast
qed

lemma fuzz_ratio_100_iff: "fuzz_ratio s t = 100 \<longleftrightarrow> s = t"
  using fuzz_ratio_full fuzz_ratio_same by blast

lemma extract_one_loop_exact:
  assumes "q \<in> set cs" and "\<And>c b. res = Some (c, b) \<Longrightarrow> b < 100"
  shows "extract_one_loop q 70 cs res = Some (q, 100)"
  using assms
proof (induction cs arbitrary: res)
  case Nil
  then show ?case by simp
next
  case (Cons c cs)
  show ?case
  proof (cases "c = q")
    case True
    have "(case res of None \<Rightarrow> True | Some (uu, best) \<Rightarrow> best < 100)"
      using Cons.prems(2) by (auto split: option.splits)
    then show ?thesis using True by (simp add: fuzz_ratio_same)
  next
    case False
    let ?score = "fuzz_ratio q c"
    let ?res' = "if 70 \<le> ?score \<and> (case res of None \<Rightarrow> True | Some (uu, best) \<Rightarrow> best < ?score)
                 then Some (c, ?score) else res"
    have ne: "?score \<noteq> 100" using False fuzz_ratio_full by blast
    then have lt: "?score < 100" using fuzz_ratio_le[of q c] by linarith
    have inv: "b < 100" if "?res' = Some (k, b)" for k b
      using that lt Cons.prems(2) by (auto split: if_splits)
    have "q \<in> set cs" using Cons.prems(1) False by auto
    then have "extract_one_loop q 70 cs ?res' = Some (q, 100)"
      using Cons.IH[of ?res'] inv by blast
    then show ?thesis using ne by (simp add: Let_def)
  qed
qed

lemma extract_one_loop_sound:
  assumes "extract_one_loop q cutoff cs res = Some (k, sc)"
  shows "res = Some (k, sc) \<or> (k \<in> set cs \<and> sc = fuzz_ratio q k \<and> cutoff \<le> sc)"
  using assms
proof (induction cs arbitrary: res)
  case Nil
  then show ?case by simp
next
  case (Cons c cs)
  let ?score = "fuzz_ratio q c"
  let ?res' = "if cutoff \<le> ?score \<and> (case res of None \<Rightarrow> True | Some (uu, best) \<Rightarrow> best < ?score)
               then Some (c, ?score) else res"
  have eq: "extract_one_loop q cutoff (c # cs) res
      = (if ?score = 100 then ?res' else extract_one_loop q cutoff cs ?res')"
    by (simp only: extract_one_loop.simps Let_def)
  have step: "?res' = Some (k, sc) \<Longrightarrow> ?case"
    by (auto split: if_splits)
  show ?case
  proof (cases "?score = 100")
    case True
    have "?res' = Some (k, sc)"
      by (rule trans[OF sym[OF trans[OF eq if_P[OF True]]] Cons.prems])
    then show ?thesis by (rule step)
  next
    case False
    have "extract_one_loop q cutoff cs ?res' = Some (k, sc)"
      by (rule trans[OF sym[OF trans[OF eq if_not_P[OF False]]] Cons.prems])
    then have "?res' = Some (k, sc) \<or> (k \<in> set cs \<and> sc = fuzz_ratio q k \<and> cutoff \<le> sc)"
      by (rule Cons.IH)
    then show ?thesis using step by auto
  qed
qed

lemma extract_one_loop_lim:
  assumes "extract_one_loop q cutoff cs res = Some (k, sc)"
    and "\<And>c b. res = Some (c, b) \<Longrightarrow> cutoff \<le> b"
  shows "cutoff \<le> sc"
  using extract_one_loop_sound[OF assms(1)] assms(2) by blast

lemma extract_one_loop_best:
  assumes "extract_one_loop q cutoff cs res = Some (k, sc)"
    and "cutoff \<le> 100"
    and "\<And>c b. res = Some (c, b) \<Longrightarrow> cutoff \<le> b \<and> b \<le> 100"
  shows "(\<forall>c \<in> set cs. fuzz_ratio q c \<le> sc) \<and> (\<forall>c b. res = Some (c, b) \<longrightarrow> b \<le> sc)"
  using assms
proof (induction cs arbitrary: res)
  case Nil
  then show ?case by simp
next
  case (Cons c cs)
  let ?score = "fuzz_ratio q c"
  let ?res' = "if cutoff \<le> ?score \<and> (case res of None \<Rightarrow> True | Some (uu, best) \<Rightarrow> best < ?score)
               then Some (c, ?score) else res"
  have eq: "extract_one_loop q cutoff (c # cs) res
      = (if ?score = 100 then ?res' else extract_one_loop q cutoff cs ?res')"
    by (simp only: extract_one_loop.simps Let_def)
  have inv: "cutoff \<le> b \<and> b \<le> 100" if "?res' = Some (k', b)" for k' b
    using that Cons.prems(3) fuzz_ratio_le[of q c] by (auto split: if_splits)
  have lim_sc: "cutoff \<le> sc"
    using extract_one_loop_lim[OF Cons.prems(1)] Cons.prems(3) by blast
  show ?case
  proof (cases "?score = 100")
    case True
    have r: "?res' = Some (k, sc)"
      by (rule trans[OF sym[OF trans[OF eq if_P[OF True]]] Cons.prems(1)])
    have "100 \<le> sc"
    proof (cases res)
      case None
      then show ?thesis using r True Cons.prems(2) by (auto split: if_splits)
    next
      case (Some p)
      then show ?thesis using r True Cons.prems(2) by (cases p) (auto split: if_splits)
    qed
    moreover have "\<forall>x \<in> set (c # cs). fuzz_ratio q x \<le> 100" using fuzz_ratio_le by blast
    moreover have "\<forall>x b. res = Some (x, b) \<longrightarrow> b \<le> 100" using Cons.prems(3) by blast
    ultimately show ?thesis by fastforce
  next
    case False
    have "extract_one_loop q cutoff cs ?res' = Some (k, sc)"
      by (rule trans[OF sym[OF trans[OF eq if_not_P[OF False]]] Cons.prems(1)])
    then have ih: "(\<forall>x \<in> set cs. fuzz_ratio q x \<le> sc) \<and> (\<forall>k' b. ?res' = Some (k', b) \<longrightarrow> b \<le> sc)"
      using Cons.IH[of ?res'] Cons.prems(2) inv by blast
    have "?score \<le> sc \<and> (\<forall>x b. res = Some (x, b) \<longrightarrow> b \<le> sc)"
    proof (cases res)
      case None
      then show ?thesis using ih lim_sc by (auto split: if_splits)
    next
      case (Some p)
      obtain k0 b0 where p: "p = (k0, b0)" by (cases p) auto
      show ?thesis using ih lim_sc Some p by (auto split: if_splits)
    qed
    then show ?thesis using ih by simp
  qed
qed

lemma extract_one_loop_none:
  assumes "cutoff \<le> 100"
  shows "extract_one_loop q cutoff cs res = None \<longleftrightarrow>
           res = None \<and> (\<forall>c \<in> set cs. fuzz_ratio q c < cutoff)"
proof (induction cs arbitrary: res)
  case Nil
  then show ?case by simp
next
  case (Cons c cs)
  show ?case
  proof (cases "fuzz_ratio q c = 100")
    case True
    then show ?thesis using assms by (cases res) (auto simp: Let_def)
  next
    case False
    then show ?thesis using Cons.IH by (cases res) (auto simp: Let_def)
  qed
qed

lemma dict_set_keys: "set (dict_keys (dict_set k v d)) = insert k (set (dict_keys d))"
  unfolding dict_keys_def dict_set_def using dom_update[of k v d] by simp

lemma dict_set_get: "dict_get (dict_set k v d) k' = (if k' = k then Some v else dict_get d k')"
  unfolding dict_get_def dict_set_def by (simp add: update_conv')

lemma dict_get_key: "k \<in> set (dict_keys d) \<Longrightarrow> \<exists>v. dict_get d k = Some v"
  unfolding dict_keys_def dict_get_def
  by (metis dict_has_def dict_has_iff dict_keys_def not_None_eq)

lemma add_choices_keys:
  "set (dict_keys (add_choices ch st)) = set (dict_keys ch) \<union> student_keys st"
  by (cases st) (auto simp: add_choices_def student_keys_def dict_set_keys)

lemma add_choices_get:
  "dict_get (add_choices ch st) k = (if k \<in> student_keys st then Some st else dict_get ch k)"
  by (cases st) (auto simp: add_choices_def student_keys_def dict_set_get)

lemma choices_keys:
  "set (dict_keys (foldl add_choices ch studs))
     = set (dict_keys ch) \<union> (\<Union>st \<in> set studs. student_keys st)"
  by (induction studs arbitrary: ch) (auto simp: add_choices_keys)

lemma choices_get:
  "dict_get (foldl add_choices ch studs) k = Some e \<Longrightarrow>
     dict_get ch k = Some e \<or> (e \<in> set studs \<and> k \<in> student_keys e)"
proof (induction studs arbitrary: ch)
  case Nil
  then show ?case by simp
next
  case (Cons st studs)
  from Cons.prems have "dict_get (foldl add_choices (add_choices ch st) studs) k = Some e"
    by simp
  then have "dict_get (add_choices ch st) k = Some e \<or> (e \<in> set studs \<and> k \<in> student_keys e)"
    by (rule Cons.IH)
  then show ?case by (auto simp: add_choices_get split: if_splits)
qed

lemma fuzzy_find_student_unfold:
  "fst (fuzzy_find_student db identifier) =
     (if students db = [] then None
      else case extractOne (py_lower identifier)
                  (dict_keys (foldl add_choices [] (students db))) 70 of
             Some m \<Rightarrow> dict_get (foldl add_choices [] (students db)) (fst m)
           | None \<Rightarrow> None)"
  by (simp add: fuzzy_find_student_def Let_def split: option.splits)

text \<open>
  C8, as the code has it. For every identifier and roster: when the lowercased
  identifier equals the lowercased USN or name of some entry, the matcher returns an entry
  whose lowercased USN or name equals it, and returns that very entry when no other entry
  has this key. In every case an entry is returned only if a key of it has the best
  similarity with the lowercased identifier among all lookup keys and that score is at
  least 70; "not found" is reported exactly when every lookup key scores below 70.
\<close>

theorem fuzzy_find_student_spec:
  fixes db :: database and ident :: string
  defines "q \<equiv> py_lower ident"
  defines "found \<equiv> fst (fuzzy_find_student db ident)"
  shows "(q \<in> roster_keys db \<longrightarrow>
            (\<exists>e \<in> set (students db). found = Some e \<and> q \<in> student_keys e))
       \<and> (\<forall>e \<in> set (students db).
            q \<in> student_keys e
            \<and> (\<forall>e' \<in> set (students db). q \<in> student_keys e' \<longrightarrow> e' = e)
            \<longrightarrow> found = Some e)
       \<and> (\<forall>e. found = Some e \<longrightarrow>
            e \<in> set (students db)
            \<and> (\<exists>k \<in> student_keys e. 70 \<le> fuzz_ratio q k
                  \<and> (\<forall>k' \<in> roster_keys db. fuzz_ratio q k' \<le> fuzz_ratio q k)))
       \<and> (found = None \<longleftrightarrow> (\<forall>k \<in> roster_keys db. fuzz_ratio q k < 70))"
proof (cases "students db = []")
  case True
  then show ?thesis
    by (simp add: found_def fuzzy_find_student_unfold roster_keys_def)
next
  case False
  define ch where "ch = foldl add_choices [] (students db)"
  define r where "r = extractOne q (dict_keys ch) 70"
  have keys: "set (dict_keys ch) = roster_keys db"
    unfolding ch_def roster_keys_def using choices_keys[of "[]" "students db"]
    by (simp add: dict_keys_def)
  have got: "e \<in> set (students db) \<and> k \<in> student_keys e" if "dict_get ch k = Some e" for k e
    using choices_get[of "[]" "students db" k e] that unfolding ch_def
    by (simp add: dict_get_def)
  have found_r: "found = (case r of Some m \<Rightarrow> dict_get ch (fst m) | None \<Rightarrow> None)"
    using False unfolding found_def r_def ch_def q_def fuzzy_find_student_unfold by simp
  have loop: "r = extract_one_loop q 70 (dict_keys ch) None"
    by (simp add: r_def extractOne_def)
  have a: "\<exists>e \<in> set (students db). found = Some e \<and> q \<in> student_keys e"
    if "q \<in> roster_keys db"
  proof -
    have "r = Some (q, 100)"
      unfolding loop using that keys by (intro extract_one_loop_exact) simp_all
    then have f: "found = dict_get ch q" using found_r by simp
    have "q \<in> set (dict_keys ch)" using that keys by simp
    then obtain e where e: "dict_get ch q = Some e"
      using dict_get_key[of q ch] by blast
    have "e \<in> set (students db)" "q \<in> student_keys e" "found = Some e"
      using got[OF e] f e by simp_all
    then show ?thesis by blast
  qed
  have b: "found = Some e"
    if "e \<in> set (students db)" "q \<in> student_keys e"
       "\<forall>e' \<in> set (students db). q \<in> student_keys e' \<longrightarrow> e' = e" for e
  proof -
    have "q \<in> roster_keys db" using that(1,2) unfolding roster_keys_def by blast
    then show ?thesis using a that(3) by blast
  qed
  have c: "e \<in> set (students db)
            \<and> (\<exists>k \<in> student_keys e. 70 \<le> fuzz_ratio q k
                  \<and> (\<forall>k' \<in> roster_keys db. fuzz_ratio q k' \<le> fuzz_ratio q k))"
    if "found = Some e" for e
  proof -
    from that found_r obtain k sc where r: "r = Some (k, sc)" and g: "dict_get ch k = Some e"
      by (cases r) auto
    have s: "sc = fuzz_ratio q k \<and> 70 \<le> sc"
      using extract_one_loop_sound[of q 70 "dict_keys ch" None k sc] r loop by simp
    have "\<forall>c \<in> set (dict_keys ch). fuzz_ratio q c \<le> sc"
      using extract_one_loop_best[of q 70 "dict_keys ch" None k sc] r loop by simp
    then have best: "\<forall>c \<in> roster_keys db. fuzz_ratio q c \<le> fuzz_ratio q k"
      using s keys by simp
    have "e \<in> set (students db)" "k \<in> student_keys e" "70 \<le> fuzz_ratio q k"
      using got[OF g] s by simp_all
    then show ?thesis using best by blast
  qed
  have d: "found = None \<longleftrightarrow> (\<forall>k \<in> roster_keys db. fuzz_ratio q k < 70)"
  proof -
    have "found = None \<longleftrightarrow> r = None"
    proof (cases r)
      case None
      then show ?thesis using found_r by simp
    next
      case (Some m)
      obtain k sc where m: "m = (k, sc)" by (cases m) auto
      have rk: "extract_one_loop q 70 (dict_keys ch) None = Some (k, sc)"
        using Some m loop by simp
      have "k \<in> set (dict_keys ch)"
        using extract_one_loop_sound[OF rk] by simp
      then obtain e where e: "dict_get ch k = Some e" using dict_get_key[of k ch] by blast
      have "found = Some e" using found_r Some m e by simp
      then show ?thesis using Some by simp
    qed
    moreover have "r = None \<longleftrightarrow> (\<forall>k \<in> set (dict_keys ch). fuzz_ratio q k < 70)"
      unfolding loop using extract_one_loop_none[of 70 q "dict_keys ch" None] by simp
    ultimately show ?thesis unfolding keys by simp
  qed
  show ?thesis
  proof (intro conjI)
    show "q \<in> roster_keys db \<longrightarrow>
            (\<exists>e \<in> set (students db). found = Some e \<and> q \<in> student_keys e)"
      using a by blast
    show "\<forall>e \<in> set (students db).
            q \<in> student_keys e
            \<and> (\<forall>e' \<in> set (students db). q \<in> student_keys e' \<longrightarrow> e' = e)
            \<longrightarrow> found = Some e"
      using b by blast
    show "\<forall>e. found = Some e \<longrightarrow>
            e \<in> set (students db)
            \<and> (\<exists>k \<in> student_keys e. 70 \<le> fuzz_ratio q k
                  \<and> (\<forall>k' \<in> roster_keys db. fuzz_ratio q k' \<le> fuzz_ratio q k))"
      using c by blast
    show "found = None \<longleftrightarrow> (\<forall>k \<in> roster_keys db. fuzz_ratio q k < 70)"
      by (rule d)
  qed
qed

theorem fuzzy_find_student_spec_witness:
  "fst (fuzzy_find_student one_student_db ''BO'') = Some (1, ''u7'', ''bo'')
   \<and> fst (fuzzy_find_student one_student_db ''zz'') = None
   \<and> py_lower ''BO'' \<in> roster_keys one_student_db
   \<and> 70 \<le> fuzz_ratio (py_lower ''BO'') ''bo''
   \<and> (\<exists>e \<in> set (students one_student_db).
         fst (fuzzy_find_student one_student_db ''BO'') = Some e
         \<and> py_lower ''BO'' \<in> student_keys e)
   \<and> (\<exists>k \<in> student_keys (1, ''u7'', ''bo''). 70 \<le> fuzz_ratio (py_lower ''BO'') k)"
proof -
  have l: "py_lower ''BO'' = ''bo''" "py_lower ''bo'' = ''bo''" "py_lower ''u7'' = ''u7''"
    "py_lower ''zz'' = ''zz''"
    by code_simp+
  have f: "fuzz_ratio ''zz'' ''u7'' < 70" "fuzz_ratio ''zz'' ''bo'' < 70"
    "70 \<le> fuzz_ratio ''bo'' ''bo''"
    by code_simp+
  have sk: "student_keys (1, ''u7'', ''bo'') = {''u7'', ''bo''}"
    by (simp add: student_keys_def l)
  have rk: "roster_keys one_student_db = {''u7'', ''bo''}"
    by (simp add: roster_keys_def one_student_db_def sk)
  have st: "set (students one_student_db) = {(1, ''u7'', ''bo'')}"
    by (simp add: one_student_db_def)
  note t1 = fuzzy_find_student_spec[where db = one_student_db and ident = "''BO''"]
  note t2 = fuzzy_find_student_spec[where db = one_student_db and ident = "''zz''"]
  have b: "\<forall>e \<in> {(1 :: int, ''u7'', ''bo'')}.
            ''bo'' \<in> student_keys e
            \<and> (\<forall>e' \<in> {(1 :: int, ''u7'', ''bo'')}. ''bo'' \<in> student_keys e' \<longrightarrow> e' = e)
            \<longrightarrow> fst (fuzzy_find_student one_student_db ''BO'') = Some e"
    using conjunct1[OF conjunct2[OF t1]] unfolding l st .
  have r1: "fst (fuzzy_find_student one_student_db ''BO'') = Some (1, ''u7'', ''bo'')"
    using b sk by simp
  have d: "fst (fuzzy_find_student one_student_db ''zz'') = None \<longleftrightarrow>
             (\<forall>k \<in> {''u7'', ''bo''}. fuzz_ratio ''zz'' k < 70)"
    using conjunct2[OF conjunct2[OF conjunct2[OF t2]]] unfolding l rk .
  have r2: "fst (fuzzy_find_student one_student_db ''zz'') = None"
    using d f by simp
  have r3: "py_lower ''BO'' \<in> roster_keys one_student_db" by (simp add: l rk)
  have r4: "70 \<le> fuzz_ratio (py_lower ''BO'') ''bo''" by (simp add: l f)
  have r5: "\<exists>e \<in> set (students one_student_db).
         fst (fuzzy_find_student one_student_db ''BO'') = Some e
         \<and> py_lower ''BO'' \<in> student_keys e"
    using conjunct1[OF t1] r3 by blast
  have r6: "\<exists>k \<in> student_keys (1, ''u7'', ''bo''). 70 \<le> fuzz_ratio (py_lower ''BO'') k"
    using conjunct1[OF conjunct2[OF conjunct2[OF t1]]] r1 by blast
  show ?thesis by (intro conjI r1 r2 r3 r4 r5 r6)
qed

text \<open>
  C8, as the claim states it, fails: two entries share a name, the identifier equals the
  name of the first, and the matcher returns the second.
\<close>

theorem fuzzy_find_student_same_name_counterexample:
  "(1, ''u1'', ''bob'') \<in> set (students two_bobs_db)
   \<and> py_lower ''bob'' = py_lower (snd (snd (1 :: int, ''u1'', ''bob'')))
   \<and> fst (fuzzy_find_student two_bobs_db ''bob'') = Some (2, ''u2'', ''bob'')
   \<and> fst (fuzzy_find_student two_bobs_db ''bob'') \<noteq> Some (1, ''u1'', ''bob'')"
  by code_simp

section \<open>The identifier is never empty\<close>



lemma search_from_bol:
  "0 < i \<Longrightarrow> search_from (Seq Bol r) i t = None"
  by (induction t arbitrary: i) simp_all










































end
